theory Spec2Isabelle
  imports Complex_Main "HOL-Library.Sublist" "HOL-Library.Char_ord" "HOL-Library.Multiset"
begin

section \<open>Data model (shared/schema.ts)\<close>

text \<open>
  Strings are byte lists. The generator's literals that contain characters beyond ASCII
  are written as their UTF-8 bytes. Dates are points of time counted in milliseconds
  (\<open>Date.getTime()\<close>); a nullable column is an \<open>option\<close>. The \<open>status\<close> column
  is free text in the schema, so it stays a string here.
\<close>

record Task =
  task_id :: nat
  prompt :: string
  status :: string
  createdAt :: nat
  completedAt :: "nat option"

record InsertMessage =
  taskId :: nat
  agent :: string
  message :: string
  messageType :: string
  metadata :: "string option"

record Message = InsertMessage +
  msg_id :: nat
  timestamp :: nat

section \<open>The task store (server/storage.ts, class MemStorage)\<close>

text \<open>
  \<open>tasks\<close> is the \<open>Map<number, Task>\<close>. \<open>messages\<close> is the \<open>Map<number, Message>\<close>
  read in its iteration order: a JavaScript \<open>Map\<close> iterates in insertion order, and every
  key written is a fresh value of the counter \<open>currentMessageId\<close>, so each \<open>set\<close>
  appends. The reading of the clock (\<open>new Date()\<close>) is an argument of the operations
  that take one.
\<close>

record MemStorage =
  tasks :: "nat \<rightharpoonup> Task"
  messages :: "Message list"
  currentTaskId :: nat
  currentMessageId :: nat

definition MemStorage_new :: MemStorage where
  "MemStorage_new = \<lparr>tasks = Map.empty, messages = [], currentTaskId = 1, currentMessageId = 1\<rparr>"

definition createTask :: "string \<Rightarrow> nat \<Rightarrow> MemStorage \<Rightarrow> Task \<times> MemStorage" where
  "createTask insertPrompt now s =
     (let i = currentTaskId s;
          task = \<lparr>task_id = i, prompt = insertPrompt, status = ''pending'',
                  createdAt = now, completedAt = None\<rparr>
      in (task, s\<lparr>tasks := (tasks s)(i \<mapsto> task), currentTaskId := i + 1\<rparr>))"

definition getTask :: "MemStorage \<Rightarrow> nat \<Rightarrow> Task option" where
  "getTask s i = tasks s i"

definition updateTaskStatus ::
    "nat \<Rightarrow> string \<Rightarrow> nat option \<Rightarrow> MemStorage \<Rightarrow> Task option \<times> MemStorage" where
  "updateTaskStatus i st cAt s =
     (case tasks s i of
        Some task \<Rightarrow>
          (let updatedTask = task\<lparr>status := st, completedAt := cAt\<rparr>
           in (Some updatedTask, s\<lparr>tasks := (tasks s)(i \<mapsto> updatedTask)\<rparr>))
      | None \<Rightarrow> (None, s))"

definition createMessage :: "InsertMessage \<Rightarrow> nat \<Rightarrow> MemStorage \<Rightarrow> Message \<times> MemStorage" where
  "createMessage im now s =
     (let i = currentMessageId s;
          m = \<lparr>taskId = taskId im, agent = agent im, message = message im,
               messageType = messageType im, metadata = metadata im,
               msg_id = i, timestamp = now\<rparr>
      in (m, s\<lparr>messages := messages s @ [m], currentMessageId := i + 1\<rparr>))"

text \<open>
  \<open>Array.prototype.sort\<close> is stable, and so is \<open>sort_key\<close>: the result is the one
  stable arrangement of the task's messages by timestamp.
\<close>

definition getTaskMessages :: "MemStorage \<Rightarrow> nat \<Rightarrow> Message list" where
  "getTaskMessages s tid = sort_key timestamp (filter (\<lambda>m. taskId m = tid) (messages s))"

definition lastElement :: "'a list \<Rightarrow> 'a option" where
  "lastElement xs = (if xs = [] then None else Some (last xs))"

definition getLatestMessage :: "MemStorage \<Rightarrow> nat \<Rightarrow> Message option" where
  "getLatestMessage s tid = lastElement (getTaskMessages s tid)"

section \<open>Strings as JavaScript reads them\<close>

text \<open>
  The character classes of the regular expressions (\<open>\d\<close>, \<open>[A-Z]\<close>, \<open>[a-z]\<close>) are
  ASCII ranges. \<open>\s\<close> is modelled by the ASCII white space and \<open>toLowerCase\<close> by the
  lowering of \<open>A\<close> to \<open>Z\<close>: prompts are taken to be ASCII text.
\<close>

definition isDigit :: "char \<Rightarrow> bool" where
  "isDigit c = (CHR ''0'' \<le> c \<and> c \<le> CHR ''9'')"

definition isUpper :: "char \<Rightarrow> bool" where
  "isUpper c = (CHR ''A'' \<le> c \<and> c \<le> CHR ''Z'')"

definition isLower :: "char \<Rightarrow> bool" where
  "isLower c = (CHR ''a'' \<le> c \<and> c \<le> CHR ''z'')"

definition isSpace :: "char \<Rightarrow> bool" where
  "isSpace c = (c = CHR '' '' \<or> (CHR 0x09 \<le> c \<and> c \<le> CHR 0x0D))"

definition lowerChar :: "char \<Rightarrow> char" where
  "lowerChar c = (if isUpper c then char_of (of_char c + (32::nat)) else c)"

definition toLowerCase :: "string \<Rightarrow> string" where
  "toLowerCase s = map lowerChar s"

fun str_includes :: "string \<Rightarrow> string \<Rightarrow> bool" where
  "str_includes [] sub = (sub = [])"
| "str_includes (c # cs) sub = (prefix sub (c # cs) \<or> str_includes cs sub)"

fun join :: "string \<Rightarrow> string list \<Rightarrow> string" where
  "join sep [] = []"
| "join sep [x] = x"
| "join sep (x # y # ys) = x @ sep @ join sep (y # ys)"

fun numberToString :: "nat \<Rightarrow> string" where
  "numberToString n =
     (if n < 10 then [char_of (48 + n)]
      else numberToString (n div 10) @ [char_of (48 + n mod 10)])"

text \<open>
  \<open>String.prototype.match\<close> with a pattern that has no \<open>g\<close> flag returns the leftmost
  match: the pattern is tried at the start of the string, then one character further, and
  so on to the end.
\<close>

fun searchFrom :: "(string \<Rightarrow> 'a option) \<Rightarrow> string \<Rightarrow> 'a option" where
  "searchFrom p [] = p []"
| "searchFrom p (c # cs) = (case p (c # cs) of Some r \<Rightarrow> Some r | None \<Rightarrow> searchFrom p cs)"

fun firstSome :: "('a \<Rightarrow> 'b option) \<Rightarrow> 'a list \<Rightarrow> 'b option" where
  "firstSome f [] = None"
| "firstSome f (x # xs) = (case f x of Some r \<Rightarrow> Some r | None \<Rightarrow> firstSome f xs)"

definition orElse :: "'a option \<Rightarrow> 'a \<Rightarrow> 'a" where
  "orElse x d = (case x of Some v \<Rightarrow> v | None \<Rightarrow> d)"

definition dquote :: string where
  "dquote = [CHR 0x22]"

definition check_mark :: string where
  "check_mark = [CHR 0xE2, CHR 0x9C, CHR 0x85]"

definition bullet :: string where
  "bullet = [CHR 0xE2, CHR 0x80, CHR 0xA2]"

definition clipboard :: string where
  "clipboard = [CHR 0xF0, CHR 0x9F, CHR 0x93, CHR 0x8B]"

definition telephone :: string where
  "telephone = [CHR 0xF0, CHR 0x9F, CHR 0x93, CHR 0x9E]"

section \<open>The local heuristic generator (server/services/agentService.ts)\<close>

record Step =
  step_agent :: string
  step_message :: string
  step_messageType :: string
  step_metadata :: "string option"

text \<open>
  The three calls of \<open>Math.random\<close> in the generator: \<open>txn\<close> is the text of
  \<open>Math.random().toString()\<close>, \<open>area\<close> and \<open>line\<close> are the two floored numbers of
  the phone number.
\<close>

record Random =
  txn :: string
  area :: nat
  line :: nat

definition mkStep :: "string \<Rightarrow> string \<Rightarrow> string \<Rightarrow> Step" where
  "mkStep a m t = \<lparr>step_agent = a, step_message = m, step_messageType = t, step_metadata = None\<rparr>"

definition containsPaymentKeywords :: "string \<Rightarrow> bool" where
  "containsPaymentKeywords p =
     list_ex (\<lambda>keyword. str_includes (toLowerCase p) keyword)
       [''send'', ''pay'', ''transfer'', ''venmo'', ''$'', ''money'', ''payment'']"

definition containsCallKeywords :: "string \<Rightarrow> bool" where
  "containsCallKeywords p =
     list_ex (\<lambda>keyword. str_includes (toLowerCase p) keyword)
       [''call'', ''phone'', ''contact'', ''speak'', ''talk'', ''confirm'', ''ask'']"

text \<open>
  \<open>/\$(\d+)/\<close> at one position: a dollar sign and the longest run of digits after it,
  which must not be empty. The result is the whole match, \<open>amountMatch[0]\<close>.
\<close>

definition amountAt :: "string \<Rightarrow> string option" where
  "amountAt s =
     (case s of
        [] \<Rightarrow> None
      | c # cs \<Rightarrow>
          if c = CHR ''$'' \<and> takeWhile isDigit cs \<noteq> [] then Some (c # takeWhile isDigit cs)
          else None)"

definition extractAmount :: "string \<Rightarrow> string option" where
  "extractAmount p = searchFrom amountAt p"

text \<open>
  \<open>[A-Z][a-z]+\<close> at one position, and what is left of the string behind it. The run of
  lower-case letters is the longest one: in both patterns what follows the name is the end
  of the pattern or white space, so giving letters back never helps.
\<close>

definition nameAt :: "string \<Rightarrow> (string \<times> string) option" where
  "nameAt s =
     (case s of
        [] \<Rightarrow> None
      | c # cs \<Rightarrow>
          if isUpper c \<and> takeWhile isLower cs \<noteq> []
          then Some (c # takeWhile isLower cs, dropWhile isLower cs)
          else None)"

text \<open>\<open>\s+\<close>: the longest run of white space, not empty; what follows it is returned.\<close>

definition spacesAt :: "string \<Rightarrow> string option" where
  "spacesAt s = (if takeWhile isSpace s = [] then None else Some (dropWhile isSpace s))"

text \<open>\<open>/(?:to|send|pay|call)\s+([A-Z][a-z]+)/\<close> at one position; the result is group 1.\<close>

definition recipientAfterVerbAt :: "string \<Rightarrow> string option" where
  "recipientAfterVerbAt s =
     firstSome
       (\<lambda>verb. if prefix verb s
          then (case spacesAt (drop (length verb) s) of
                  None \<Rightarrow> None
                | Some r \<Rightarrow> map_option fst (nameAt r))
          else None)
       [''to'', ''send'', ''pay'', ''call'']"

text \<open>\<open>/([A-Z][a-z]+)(?:\s+via|\s+and)/\<close> at one position; the result is group 1.\<close>

definition recipientBeforeWordAt :: "string \<Rightarrow> string option" where
  "recipientBeforeWordAt s =
     (case nameAt s of
        None \<Rightarrow> None
      | Some (name, r) \<Rightarrow>
          firstSome
            (\<lambda>word. case spacesAt r of
                       None \<Rightarrow> None
                     | Some r' \<Rightarrow> if prefix word r' then Some name else None)
            [''via'', ''and''])"

definition extractRecipient :: "string \<Rightarrow> string option" where
  "extractRecipient p =
     firstSome (\<lambda>pattern. searchFrom pattern p) [recipientAfterVerbAt, recipientBeforeWordAt]"

definition extractSubtasks :: "string \<Rightarrow> bool \<Rightarrow> bool \<Rightarrow> string list" where
  "extractSubtasks p needsPayment needsCall =
     (if needsPayment
      then [''Venmo payment ''
              @ (case extractAmount p of Some amount \<Rightarrow> ''of '' @ amount | None \<Rightarrow> [])
              @ '' ''
              @ (case extractRecipient p of Some recipient \<Rightarrow> ''to '' @ recipient | None \<Rightarrow> [])]
      else [])
     @ (if needsCall
        then [''Phone call ''
                @ (case extractRecipient p of Some recipient \<Rightarrow> ''to '' @ recipient | None \<Rightarrow> [])
                @ '' for confirmation'']
        else [])
     @ (if str_includes (toLowerCase p) ''dinner'' \<or> str_includes (toLowerCase p) ''plans''
        then [''Discuss future plans'']
        else [])"

definition generateVenmoFlow :: "Random \<Rightarrow> string \<Rightarrow> Step list" where
  "generateVenmoFlow rnd p =
     (let amount = orElse (extractAmount p) ''$50'';
          recipient = orElse (extractRecipient p) ''John''
      in [mkStep ''supervisor'' ''Delegating payment task to Venmo Agent...'' ''delegation'',
          mkStep ''venmo'' (''Received payment request: '' @ amount @ '' to '' @ recipient)
            ''acknowledgment'',
          mkStep ''venmo''
            (''Searching for contact '' @ dquote @ recipient @ dquote @ '' in Venmo contacts...'') ''processing'',
          mkStep ''venmo''
            (''Contact found: '' @ recipient @ '' Smith (@'' @ toLowerCase recipient
               @ ''smith_venmo)'') ''success'',
          mkStep ''venmo''
            (''Initiating payment of '' @ amount @ '' with note: '' @ dquote @ ''Payment as requested''
               @ dquote)
            ''action'',
          mkStep ''venmo''
            (check_mark @ '' Payment successful! Transaction ID: VM_'' @ take 9 (drop 2 (txn rnd)))
            ''success''])"

definition generateCallOutcome :: "string \<Rightarrow> string" where
  "generateCallOutcome p =
     (if str_includes (toLowerCase p) ''dinner'' then ''Plans confirmed for dinner this Friday at 7 PM.''
      else if str_includes (toLowerCase p) ''lunch'' then ''Lunch plans confirmed for tomorrow at noon.''
      else if str_includes (toLowerCase p) ''meeting'' then ''Meeting scheduled for next week.''
      else ''Plans discussed and confirmed.'')"

definition generatePhoneFlow :: "Random \<Rightarrow> string \<Rightarrow> Step list" where
  "generatePhoneFlow rnd p =
     (let recipient = orElse (extractRecipient p) ''John'';
          phoneNumber = ''(555) '' @ numberToString (area rnd) @ ''-'' @ numberToString (line rnd)
      in [mkStep ''phone''
            (''Received call request for '' @ recipient @ '' to confirm payment and discuss plans'')
            ''acknowledgment'',
          mkStep ''phone'' (''Looking up contact information for '' @ recipient @ ''...'')
            ''processing'',
          mkStep ''phone'' (''Found contact: '' @ recipient @ '' Smith - '' @ phoneNumber) ''success'',
          mkStep ''phone'' (''Initiating call to '' @ recipient @ ''...'') ''action'',
          mkStep ''phone'' (telephone @ '' Call connected. Confirming Venmo payment...'') ''progress'',
          mkStep ''phone''
            (recipient @ '' confirmed payment received. ''
               @ (if str_includes (toLowerCase p) ''dinner'' then ''Discussing Friday dinner plans...''
                  else ''Discussing plans...''))
            ''progress'',
          mkStep ''phone'' (check_mark @ '' Call completed. '' @ generateCallOutcome p) ''success''])"

definition generateFinalSummary :: "string \<Rightarrow> bool \<Rightarrow> bool \<Rightarrow> string" where
  "generateFinalSummary p needsPayment needsCall =
     (let amount = orElse (extractAmount p) ''$50'';
          recipient = orElse (extractRecipient p) ''John''
      in ''All tasks completed successfully!'' @ [CHR 0x0A, CHR 0x0A] @ clipboard @ '' Summary:''
           @ [CHR 0x0A]
         @ (if needsPayment
            then bullet @ '' '' @ amount @ '' sent to '' @ recipient @ '' via Venmo '' @ check_mark
                   @ [CHR 0x0A]
            else [])
         @ (if needsCall
            then bullet @ '' Confirmation call completed '' @ check_mark @ [CHR 0x0A]
            else [])
         @ (if str_includes (toLowerCase p) ''dinner''
            then bullet @ '' Dinner plans confirmed for Friday 7 PM '' @ check_mark
            else if str_includes (toLowerCase p) ''lunch''
            then bullet @ '' Lunch plans confirmed '' @ check_mark
            else if needsCall
            then bullet @ '' Plans discussed and confirmed '' @ check_mark
            else []))"

fun numbered :: "nat \<Rightarrow> string list \<Rightarrow> string list" where
  "numbered i [] = []"
| "numbered i (task # rest) = (numberToString (i + 1) @ ''. '' @ task) # numbered (i + 1) rest"

definition generateConversationFlow :: "Random \<Rightarrow> string \<Rightarrow> Step list" where
  "generateConversationFlow rnd p =
     (let needsPayment = containsPaymentKeywords p;
          needsCall = containsCallKeywords p;
          subtasks = extractSubtasks p needsPayment needsCall
      in [mkStep ''supervisor'' (''Analyzing task: '' @ dquote @ p @ dquote) ''analysis'',
          mkStep ''supervisor''
            (''Breaking down into subtasks:'' @ [CHR 0x0A] @ join [CHR 0x0A] (numbered 0 subtasks))
            ''planning'']
         @ (if needsPayment then generateVenmoFlow rnd p else [])
         @ (if needsPayment \<and> needsCall
            then [mkStep ''supervisor''
                    ''Payment completed successfully. Now delegating call task to Phone Agent...''
                    ''coordination'']
            else [])
         @ (if needsCall then generatePhoneFlow rnd p else [])
         @ [mkStep ''supervisor'' (generateFinalSummary p needsPayment needsCall) ''completion''])"

section \<open>Progress snapshots (getTaskProgress of both services)\<close>

datatype AgentState = Idle | Active | Complete

record AgentStatus =
  supervisor :: AgentState
  phone :: AgentState
  venmo :: AgentState

text \<open>
  The \<open>currentMessage\<close> of a snapshot carries the time of the message as an ISO
  string; here it is the point of time itself.
\<close>

record CurrentMessage =
  cm_agent :: string
  cm_message :: string
  cm_messageType :: string
  cm_timestamp :: nat

text \<open>
  \<open>progress\<close> is a JavaScript number. It is modelled by the exact rational value of the
  expression; division and multiplication by a positive constant are monotone in floating
  point as well, so order statements carry over.
\<close>

record TaskProgress =
  tp_taskId :: nat
  progress :: rat
  tp_status :: string
  agentStatus :: AgentStatus
  currentMessage :: "CurrentMessage option"

definition allIdle :: AgentStatus where
  "allIdle = \<lparr>supervisor = Idle, phone = Idle, venmo = Idle\<rparr>"

definition allComplete :: AgentStatus where
  "allComplete = \<lparr>supervisor = Complete, phone = Complete, venmo = Complete\<rparr>"

text \<open>
  The body shared by \<open>AgentService.getTaskProgress\<close> and
  \<open>ExternalAgentService.getTaskProgress\<close>, which differ in the expected number of steps
  only (17 and 8).
\<close>

definition snapshotOf :: "nat \<Rightarrow> nat \<Rightarrow> Task \<Rightarrow> Message list \<Rightarrow> TaskProgress" where
  "snapshotOf expected tid task msgs =
     (let latestMessage = lastElement msgs;
          prog = (if status task = ''completed'' then 100
                  else if status task = ''processing''
                  then min (of_nat (length msgs) / of_nat expected * 100) 95
                  else 0);
          agents =
            (if status task = ''completed'' then allComplete
             else (case latestMessage of
                     None \<Rightarrow> allIdle
                   | Some m \<Rightarrow>
                       if agent m = ''supervisor'' then allIdle\<lparr>supervisor := Active\<rparr>
                       else if agent m = ''phone'' then allIdle\<lparr>phone := Active\<rparr>
                       else if agent m = ''venmo'' then allIdle\<lparr>venmo := Active\<rparr>
                       else allIdle))
      in \<lparr>tp_taskId = tid, progress = prog, tp_status = status task, agentStatus = agents,
          currentMessage =
            map_option
              (\<lambda>m. \<lparr>cm_agent = agent m, cm_message = message m, cm_messageType = messageType m,
                      cm_timestamp = timestamp m\<rparr>)
              latestMessage\<rparr>)"

definition AgentService_getTaskProgress :: "MemStorage \<Rightarrow> nat \<Rightarrow> TaskProgress option" where
  "AgentService_getTaskProgress s tid =
     (case getTask s tid of
        None \<Rightarrow> None
      | Some task \<Rightarrow> Some (snapshotOf 17 tid task (getTaskMessages s tid)))"

definition ExternalAgentService_getTaskProgress :: "MemStorage \<Rightarrow> nat \<Rightarrow> TaskProgress option" where
  "ExternalAgentService_getTaskProgress s tid =
     (case getTask s tid of
        None \<Rightarrow> None
      | Some task \<Rightarrow> Some (snapshotOf 8 tid task (getTaskMessages s tid)))"

section \<open>The task processor (processTask of both services)\<close>

text \<open>
  A service owns its \<open>activeProcessing\<close> map and works on the one shared store. A thrown
  \<open>Error\<close> is a value carrying its message. The pacing delays change no state and are
  left out; \<open>clock k\<close> is the reading of the clock at the \<open>k\<close>-th write of a run.
\<close>

datatype error = Error string

record Service =
  activeProcessing :: "nat \<rightharpoonup> bool"
  storage :: MemStorage

definition isActive :: "Service \<Rightarrow> nat \<Rightarrow> bool" where
  "isActive sv tid = (activeProcessing sv tid = Some True)"

definition setActive :: "nat \<Rightarrow> bool \<Rightarrow> Service \<Rightarrow> Service" where
  "setActive tid b sv = sv\<lparr>activeProcessing := (activeProcessing sv)(tid \<mapsto> b)\<rparr>"

definition onStorage :: "(MemStorage \<Rightarrow> MemStorage) \<Rightarrow> Service \<Rightarrow> Service" where
  "onStorage f sv = sv\<lparr>storage := f (storage sv)\<rparr>"

definition writeStep :: "nat \<Rightarrow> Step \<Rightarrow> nat \<Rightarrow> MemStorage \<Rightarrow> MemStorage" where
  "writeStep tid step now s =
     snd (createMessage
            \<lparr>taskId = tid, agent = step_agent step, message = step_message step,
             messageType = step_messageType step, metadata = step_metadata step\<rparr> now s)"

text \<open>The emission loop, from index \<open>i\<close> on: one \<open>createMessage\<close> for each step, in order.\<close>

fun emitSteps :: "nat \<Rightarrow> (nat \<Rightarrow> nat) \<Rightarrow> nat \<Rightarrow> Step list \<Rightarrow> MemStorage \<Rightarrow> MemStorage" where
  "emitSteps tid clock i [] s = s"
| "emitSteps tid clock i (step # rest) s =
     emitSteps tid clock (i + 1) rest (writeStep tid step (clock i) s)"

text \<open>What a stored message keeps of the step it was written from, and for which task.\<close>

definition stepOf :: "Message \<Rightarrow> nat \<times> Step" where
  "stepOf m =
     (taskId m,
      \<lparr>step_agent = agent m, step_message = message m, step_messageType = messageType m,
       step_metadata = metadata m\<rparr>)"

text \<open>
  The state of a run that has passed the guard and is suspended in the loop with \<open>k\<close> steps
  of \<open>flow\<close> written: the flag is set, the task is marked \<open>processing\<close>.
\<close>

definition runningAfter :: "(nat \<Rightarrow> nat) \<Rightarrow> nat \<Rightarrow> Step list \<Rightarrow> nat \<Rightarrow> Service \<Rightarrow> Service" where
  "runningAfter clock tid flow k sv =
     onStorage (emitSteps tid clock 0 (take k flow))
       (onStorage (\<lambda>s. snd (updateTaskStatus tid ''processing'' None s))
          (setActive tid True sv))"

definition alreadyProcessing :: error where
  "alreadyProcessing = Error ''Task is already being processed''"

text \<open>
  \<open>AgentService.processTask\<close>, run to its end. Neither the store nor the generator raises,
  so the \<open>catch\<close> branch is not reached by this strategy; \<open>finally\<close> clears the flag.
\<close>

definition AgentService_processTask ::
    "Random \<Rightarrow> (nat \<Rightarrow> nat) \<Rightarrow> nat \<Rightarrow> string \<Rightarrow> Service \<Rightarrow> (error + unit) \<times> Service" where
  "AgentService_processTask rnd clock tid p sv =
     (if isActive sv tid then (Inl alreadyProcessing, sv)
      else
        (let conversationFlow = generateConversationFlow rnd p;
             n = length conversationFlow;
             sv1 = runningAfter clock tid conversationFlow n sv;
             sv2 = onStorage (\<lambda>s. snd (updateTaskStatus tid ''completed'' (Some (clock n)) s)) sv1
         in (Inr (), setActive tid False sv2)))"

section \<open>The external delegation strategy (server/services/externalAgentService.ts)\<close>

text \<open>
  The oracle's answer is an argument. A \<open>fetch\<close> either rejects (\<open>Inl\<close>, with the message
  of the error) or yields a response. The body of a response either does not parse
  (\<open>Unparseable\<close>, with the message of the \<open>SyntaxError\<close>) or parses to a reply.

  A reply is described by what its two readers, \<open>parseAPIResponse\<close> of the service and
  the loop of \<open>processTaskWithUpdates\<close>, find in it. Both read an item by its first entry
  (\<open>Object.entries(item)[0]\<close>, or \<open>Object.keys(step)[0]\<close> and the value under it).
  Where the engine raises a \<open>TypeError\<close>, its message comes with the reply, one for each
  reader, as the two read by different operations.
  \<^item> \<open>Entry key text\<close>: the first entry of the item is a key with a text, as in the
    expected shape, an array of single-key objects.
  \<^item> \<open>NoEntry a b\<close>: the item has no first entry (null, a number, a boolean, an empty
    object, array or string). The service fails to destructure it (message \<open>a\<close>), the
    route fails to read or to lower-case its key (message \<open>b\<close>).
  \<^item> \<open>NonText key a b\<close>: the first entry has one of the three agent keys and a value
    that is null, a number, a boolean or an object. The service fails to lower-case the
    value in \<open>getMessageType\<close> (message \<open>a\<close>), the route fails to call its
    \<open>includes\<close> (message \<open>b\<close>).
  \<^item> \<open>Items\<close>: the reply is iterable, an array of such items (a JSON string reads as
    its characters, each under the key "0").
  \<^item> \<open>NotIterable a\<close>: the reply is a number, a boolean or an object without a
    \<open>length\<close> property. \<open>for ... of\<close> fails on it (message \<open>a\<close>); the loop of the
    route, which counts up to \<open>length\<close>, runs no round.
  \<^item> \<open>NullReply a b\<close>: the reply is null. \<open>for ... of\<close> fails on it (message
    \<open>a\<close>) and so does the reading of its \<open>length\<close> (message \<open>b\<close>).

  A value that is not text under the key \<open>User\<close> or an unknown key, which the service
  would store as the message, and an array as a value are outside the type of a message,
  which is text, and are not described.
\<close>

datatype AgentKey = Supervisor | Phone_agent | Venmo_agent

datatype ApiItem =
    Entry string string
  | NoEntry string string
  | NonText AgentKey string string

datatype ApiReply =
    Items "ApiItem list"
  | NotIterable string
  | NullReply string string

datatype ApiBody = Unparseable string | Reply ApiReply

record HttpResponse =
  ok :: bool
  http_status :: nat
  statusText :: string
  body :: ApiBody

definition callExternalAPI :: "string + HttpResponse \<Rightarrow> error + ApiReply" where
  "callExternalAPI fetched =
     (case fetched of
        Inl msg \<Rightarrow> Inl (Error msg)
      | Inr response \<Rightarrow>
          if \<not> ok response
          then Inl (Error (''API call failed: '' @ numberToString (http_status response) @ '' ''
                            @ statusText response))
          else (case body response of
                  Unparseable msg \<Rightarrow> Inl (Error msg)
                | Reply reply \<Rightarrow> Inr reply))"

definition getMessageType :: "string \<Rightarrow> string" where
  "getMessageType msg =
     (let lowerMessage = toLowerCase msg
      in if str_includes lowerMessage ''let's go to'' \<or> str_includes lowerMessage ''delegating''
         then ''delegation''
         else if str_includes lowerMessage ''transaction id''
                 \<or> str_includes lowerMessage ''sent successfully''
         then ''success''
         else if str_includes lowerMessage ''send'' \<or> str_includes lowerMessage ''retrieve''
                 \<or> str_includes lowerMessage ''identify''
         then ''action''
         else if str_includes lowerMessage ''contact'' \<or> str_includes lowerMessage ''email''
                 \<or> str_includes lowerMessage ''amount''
         then ''processing''
         else if str_includes lowerMessage ''your'' \<and> str_includes lowerMessage ''has been''
         then ''completion''
         else ''processing'')"

text \<open>One round of the loop of \<open>parseAPIResponse\<close>: the step pushed, or the error thrown.\<close>

definition parseItem :: "ApiItem \<Rightarrow> error + Step" where
  "parseItem item =
     (case item of
        NoEntry a b \<Rightarrow> Inl (Error a)
      | NonText key a b \<Rightarrow> Inl (Error a)
      | Entry agentKey msg \<Rightarrow>
          Inr (if agentKey = ''User'' then mkStep ''user'' msg ''input''
               else if agentKey = ''Supervisor''
               then mkStep ''supervisor'' msg (getMessageType msg)
               else if agentKey = ''phone_agent'' then mkStep ''phone'' msg (getMessageType msg)
               else if agentKey = ''venmo_agent'' then mkStep ''venmo'' msg (getMessageType msg)
               else mkStep (toLowerCase agentKey) msg ''processing''))"

text \<open>The loop: the rounds in order, up to the first one that throws.\<close>

fun parseItems :: "ApiItem list \<Rightarrow> error + Step list" where
  "parseItems [] = Inr []"
| "parseItems (item # rest) =
     (case parseItem item of
        Inl e \<Rightarrow> Inl e
      | Inr step \<Rightarrow>
          (case parseItems rest of
             Inl e \<Rightarrow> Inl e
           | Inr flow \<Rightarrow> Inr (step # flow)))"

definition parseAPIResponse :: "ApiReply \<Rightarrow> error + Step list" where
  "parseAPIResponse apiResponse =
     (case apiResponse of
        NotIterable a \<Rightarrow> Inl (Error a)
      | NullReply a b \<Rightarrow> Inl (Error a)
      | Items items \<Rightarrow> parseItems items)"

text \<open>
  The first two statements of the \<open>try\<close> block after the status is set: the call, and
  the parsing of what it returns. Either may throw.
\<close>

definition fetchConversationFlow :: "string + HttpResponse \<Rightarrow> error + Step list" where
  "fetchConversationFlow fetched =
     (case callExternalAPI fetched of
        Inl e \<Rightarrow> Inl e
      | Inr response \<Rightarrow> parseAPIResponse response)"

text \<open>
  \<open>ExternalAgentService.processTask\<close>, run to its end: an error of the call or of the
  parsing is caught, the task is marked \<open>failed\<close>, the error is thrown again, and
  \<open>finally\<close> clears the flag.
\<close>

definition ExternalAgentService_processTask ::
    "string + HttpResponse \<Rightarrow> (nat \<Rightarrow> nat) \<Rightarrow> nat \<Rightarrow> string \<Rightarrow> Service
       \<Rightarrow> (error + unit) \<times> Service" where
  "ExternalAgentService_processTask fetched clock tid p sv =
     (if isActive sv tid then (Inl alreadyProcessing, sv)
      else
        (case fetchConversationFlow fetched of
           Inl e \<Rightarrow>
             (Inl e,
              setActive tid False
                (onStorage (\<lambda>s. snd (updateTaskStatus tid ''failed'' None s))
                   (runningAfter clock tid [] 0 sv)))
         | Inr conversationFlow \<Rightarrow>
             (let n = length conversationFlow;
                  sv1 = runningAfter clock tid conversationFlow n sv;
                  sv2 = onStorage
                          (\<lambda>s. snd (updateTaskStatus tid ''completed'' (Some (clock n)) s)) sv1
              in (Inr (), setActive tid False sv2))))"

section \<open>The routes (server/routes.ts)\<close>

subsection \<open>Broadcast events\<close>

text \<open>
  \<open>broadcast\<close> serialises an event and sends it to every open connection. What is kept
  here is the sequence of events handed to \<open>broadcast\<close>, in order.
\<close>

datatype Event =
    TaskProgressEvent TaskProgress
  | TaskCompletedEvent TaskProgress
  | TaskErrorEvent nat string

record Server =
  store :: MemStorage
  broadcasts :: "Event list"

definition broadcast :: "Event \<Rightarrow> Server \<Rightarrow> Server" where
  "broadcast e sv = sv\<lparr>broadcasts := broadcasts sv @ [e]\<rparr>"

definition onStore :: "(MemStorage \<Rightarrow> MemStorage) \<Rightarrow> Server \<Rightarrow> Server" where
  "onStore f sv = sv\<lparr>store := f (store sv)\<rparr>"

subsection \<open>processTaskWithUpdates\<close>

text \<open>
  The response as the route reads it, up to the first test of the loop. A number, a
  boolean or an object without \<open>length\<close> gives the loop no round, as an empty array
  does; reading the \<open>length\<close> of null throws.
\<close>

definition routeFetch :: "string + HttpResponse \<Rightarrow> error + ApiItem list" where
  "routeFetch fetched =
     (case fetched of
        Inl msg \<Rightarrow> Inl (Error msg)
      | Inr response \<Rightarrow>
          if \<not> ok response
          then Inl (Error (''API call failed: '' @ numberToString (http_status response) @ '' ''
                            @ statusText response))
          else (case body response of
                  Unparseable msg \<Rightarrow> Inl (Error ''Failed to parse API response'')
                | Reply (Items items) \<Rightarrow> Inr items
                | Reply (NotIterable a) \<Rightarrow> Inr []
                | Reply (NullReply a b) \<Rightarrow> Inl (Error b)))"

definition routeAgentName :: "string \<Rightarrow> string" where
  "routeAgentName stepKey =
     (let a0 = toLowerCase stepKey;
          a1 = (if a0 = ''phone_agent'' then ''phone'' else a0);
          a2 = (if a1 = ''venmo_agent'' then ''venmo'' else a1);
          a3 = (if a2 = ''supervisor'' then ''supervisor'' else a2)
      in (if a3 = ''user'' then ''user'' else a3))"

definition routeMessageType :: "string \<Rightarrow> string \<Rightarrow> string" where
  "routeMessageType stepMessage agentName =
     (if str_includes stepMessage ''Transaction ID'' \<or> str_includes stepMessage ''sent successfully''
      then ''success''
      else if str_includes stepMessage ''Let's go to'' then ''delegation''
      else if agentName = ''user'' then ''user_input''
      else ''processing'')"

definition stepAgentState :: "string \<Rightarrow> string \<Rightarrow> nat \<Rightarrow> nat \<Rightarrow> AgentState" where
  "stepAgentState agentName who i n =
     (if agentName = who then Active else if i + 1 = n then Complete else Idle)"

definition stepEvent :: "nat \<Rightarrow> nat \<Rightarrow> nat \<Rightarrow> string \<Rightarrow> string \<Rightarrow> string \<Rightarrow> nat \<Rightarrow> Event" where
  "stepEvent tid i n agentName stepMessage mt now =
     TaskProgressEvent
       \<lparr>tp_taskId = tid,
        progress = min (20 + (of_nat i / of_nat n) * 75) 95,
        tp_status = ''processing'',
        agentStatus =
          \<lparr>supervisor = stepAgentState agentName ''supervisor'' i n,
           phone = stepAgentState agentName ''phone'' i n,
           venmo = stepAgentState agentName ''venmo'' i n\<rparr>,
        currentMessage =
          Some \<lparr>cm_agent = agentName, cm_message = stepMessage, cm_messageType = mt,
                cm_timestamp = now\<rparr>\<rparr>"

text \<open>
  The loop over the reply, from index \<open>i\<close> on; \<open>n\<close> is the length of the whole reply.
  Each round reads the clock twice: for the stored message and for the broadcast. A round
  that throws does so before it writes; the loop then ends with the error and the state
  the earlier rounds have left.
\<close>

fun routeLoop ::
    "(nat \<Rightarrow> nat) \<Rightarrow> nat \<Rightarrow> nat \<Rightarrow> nat \<Rightarrow> ApiItem list \<Rightarrow> Server \<Rightarrow> error option \<times> Server" where
  "routeLoop clock tid n i [] sv = (None, sv)"
| "routeLoop clock tid n i (NoEntry a b # rest) sv = (Some (Error b), sv)"
| "routeLoop clock tid n i (NonText key a b # rest) sv = (Some (Error b), sv)"
| "routeLoop clock tid n i (Entry stepKey stepMessage # rest) sv =
     (let agentName = routeAgentName stepKey;
          mt = routeMessageType stepMessage agentName;
          sv1 = onStore
                  (\<lambda>s. snd (createMessage
                               \<lparr>taskId = tid, agent = agentName, message = stepMessage,
                                messageType = mt, metadata = None\<rparr>
                               (clock (2 * i + 1)) s)) sv;
          sv2 = broadcast (stepEvent tid i n agentName stepMessage mt (clock (2 * i + 2))) sv1
      in routeLoop clock tid n (i + 1) rest sv2)"

definition initialEvent :: "nat \<Rightarrow> nat \<Rightarrow> Event" where
  "initialEvent tid now =
     TaskProgressEvent
       \<lparr>tp_taskId = tid, progress = 10, tp_status = ''processing'',
        agentStatus = \<lparr>supervisor = Active, phone = Idle, venmo = Idle\<rparr>,
        currentMessage =
          Some \<lparr>cm_agent = ''supervisor'',
                cm_message = ''Making API call to external service...'',
                cm_messageType = ''processing'', cm_timestamp = now\<rparr>\<rparr>"

definition completedEvent :: "nat \<Rightarrow> Event" where
  "completedEvent tid =
     TaskCompletedEvent
       \<lparr>tp_taskId = tid, progress = 100, tp_status = ''completed'',
        agentStatus = allComplete, currentMessage = None\<rparr>"

definition processTaskWithUpdates ::
    "string + HttpResponse \<Rightarrow> (nat \<Rightarrow> nat) \<Rightarrow> nat \<Rightarrow> string \<Rightarrow> Server \<Rightarrow> Server" where
  "processTaskWithUpdates fetched clock tid p sv =
     (let sv1 = onStore (\<lambda>s. snd (updateTaskStatus tid ''processing'' None s)) sv;
          sv2 = broadcast (initialEvent tid (clock 0)) sv1
      in case routeFetch fetched of
           Inl (Error msg) \<Rightarrow>
             broadcast (TaskErrorEvent tid msg)
               (onStore (\<lambda>s. snd (updateTaskStatus tid ''failed'' None s)) sv2)
         | Inr conversationFlow \<Rightarrow>
             (let n = length conversationFlow
              in case routeLoop clock tid n 0 conversationFlow sv2 of
                   (Some (Error msg), sv3) \<Rightarrow>
                     broadcast (TaskErrorEvent tid msg)
                       (onStore (\<lambda>s. snd (updateTaskStatus tid ''failed'' None s)) sv3)
                 | (None, sv3) \<Rightarrow>
                     broadcast (completedEvent tid)
                       (onStore
                          (\<lambda>s. snd (updateTaskStatus tid ''completed''
                                       (Some (clock (2 * n + 1))) s))
                          sv3)))"

definition isTaskError :: "Event \<Rightarrow> bool" where
  "isTaskError e = (case e of TaskErrorEvent _ _ \<Rightarrow> True | _ \<Rightarrow> False)"

subsection \<open>The submission endpoint\<close>

text \<open>
  The request body as the JSON body parser leaves it; a key that an object does not have
  reads as \<open>JUndefined\<close>. \<open>insertTaskSchema\<close> is what drizzle-zod derives from the
  column \<open>text("prompt").notNull()\<close>, picked alone: an object whose \<open>prompt\<close> is a
  string, with no constraint on the string. A failed \<open>parse\<close> throws a \<open>ZodError\<close>
  with one issue for each offending path.
\<close>

datatype JsonValue =
    JUndefined
  | JNull
  | JBool bool
  | JNumber int
  | JString string
  | JArray "JsonValue list"
  | JObject "string \<Rightarrow> JsonValue"

record ZodIssue =
  expected :: string
  received :: string
  path :: "string list"

definition parsedType :: "JsonValue \<Rightarrow> string" where
  "parsedType v =
     (case v of
        JUndefined \<Rightarrow> ''undefined''
      | JNull \<Rightarrow> ''null''
      | JBool _ \<Rightarrow> ''boolean''
      | JNumber _ \<Rightarrow> ''number''
      | JString _ \<Rightarrow> ''string''
      | JArray _ \<Rightarrow> ''array''
      | JObject _ \<Rightarrow> ''object'')"

definition insertTaskSchema_parse :: "JsonValue \<Rightarrow> ZodIssue list + string" where
  "insertTaskSchema_parse v =
     (case v of
        JObject obj \<Rightarrow>
          (case obj ''prompt'' of
             JString p \<Rightarrow> Inr p
           | w \<Rightarrow> Inl [\<lparr>expected = ''string'', received = parsedType w, path = [''prompt'']\<rparr>])
      | w \<Rightarrow> Inl [\<lparr>expected = ''object'', received = parsedType w, path = []\<rparr>])"

datatype Response =
    Json200 Task
  | Json400 string "ZodIssue list"
  | Json500 string

text \<open>
  The handler of \<open>POST /api/tasks\<close>: the response, the store after it, and the run it
  starts (task id and prompt), if any.
\<close>

definition postTasks ::
    "JsonValue \<Rightarrow> nat \<Rightarrow> MemStorage \<Rightarrow> Response \<times> MemStorage \<times> (nat \<times> string) option" where
  "postTasks reqBody now s =
     (case insertTaskSchema_parse reqBody of
        Inl issues \<Rightarrow> (Json400 ''Validation error'' issues, s, None)
      | Inr validatedPrompt \<Rightarrow>
          (let (task, s') = createTask validatedPrompt now s
           in (Json200 task, s', Some (task_id task, validatedPrompt))))"

section \<open>States the store can reach\<close>

text \<open>
  The store after any sequence of its three writing operations, whatever the clock reads
  at each of them.
\<close>

inductive reachable :: "MemStorage \<Rightarrow> bool" where
  reachable_new: "reachable MemStorage_new"
| reachable_createTask: "reachable s \<Longrightarrow> reachable (snd (createTask p now s))"
| reachable_updateTaskStatus: "reachable s \<Longrightarrow> reachable (snd (updateTaskStatus i st cAt s))"
| reachable_createMessage: "reachable s \<Longrightarrow> reachable (snd (createMessage im now s))"

section \<open>Example states\<close>

text \<open>
  A store with one pending task, the same store in the middle of a run (three messages
  written), and that run marked as failed.
\<close>

definition store1 :: MemStorage where
  "store1 = snd (createTask ''Send Alex $32.50'' 1000 MemStorage_new)"

definition store1_processing :: MemStorage where
  "store1_processing =
     emitSteps 1 (\<lambda>i. 2000 + i) 0
       [mkStep ''supervisor'' ''Analyzing'' ''analysis'',
        mkStep ''venmo'' ''Paying'' ''action'',
        mkStep ''phone'' ''Calling'' ''action'']
       (snd (updateTaskStatus 1 ''processing'' None store1))"

text \<open>
  The store with two messages of the pending task's run where the clock has stepped back
  between the two writes.
\<close>

definition store1_clock_back :: MemStorage where
  "store1_clock_back =
     snd (createMessage
            \<lparr>taskId = 1, agent = ''venmo'', message = ''Paying'', messageType = ''action'',
             metadata = None\<rparr> 2000
            (snd (createMessage
                    \<lparr>taskId = 1, agent = ''supervisor'', message = ''Analyzing'',
                     messageType = ''analysis'', metadata = None\<rparr> 3000
                    (snd (updateTaskStatus 1 ''processing'' None store1)))))"

definition store1_failed :: MemStorage where
  "store1_failed = snd (updateTaskStatus 1 ''failed'' None store1_processing)"

definition store1_completed :: MemStorage where
  "store1_completed = snd (updateTaskStatus 1 ''completed'' (Some 9000) store1_processing)"

text \<open>
  A service on the store with the pending task: before a run, suspended in a run after
  two steps, and after a whole run of the local strategy. A response of the oracle with
  an error status, and the routes' state on the same store.
\<close>

definition random1 :: Random where
  "random1 = \<lparr>txn = ''0.8431726450938'', area = 482, line = 7319\<rparr>"

definition clock1 :: "nat \<Rightarrow> nat" where
  "clock1 k = 2000 + k"

definition service1 :: Service where
  "service1 = \<lparr>activeProcessing = Map.empty, storage = store1\<rparr>"

definition service1_running :: Service where
  "service1_running =
     runningAfter clock1 1
       [mkStep ''supervisor'' ''Analyzing'' ''analysis'',
        mkStep ''venmo'' ''Paying'' ''action'',
        mkStep ''phone'' ''Calling'' ''action''] 2 service1"

definition service1_done :: Service where
  "service1_done = snd (AgentService_processTask random1 clock1 1 ''Send Alex $32.50'' service1)"

definition response500 :: HttpResponse where
  "response500 = \<lparr>ok = False, http_status = 500, statusText = ''Internal Server Error'',
                   body = Unparseable ''Unexpected token'' \<rparr>"

text \<open>
  Three responses with a success status: a reply of the expected shape, a reply that is a
  number, and a reply whose second item is an empty object.
\<close>

definition responseEmptyItem :: HttpResponse where
  "responseEmptyItem =
     \<lparr>ok = True, http_status = 200, statusText = ''OK'',
      body = Reply (Items [Entry ''User'' ''Send Alex $32.50'',
                           NoEntry ''undefined is not iterable''
                             ''Cannot read properties of undefined''])\<rparr>"

definition responseReply :: HttpResponse where
  "responseReply =
     \<lparr>ok = True, http_status = 200, statusText = ''OK'',
      body = Reply (Items [Entry ''User'' ''Send Alex $32.50'',
                           Entry ''Supervisor'' ''Let's go to venmo_agent'',
                           Entry ''venmo_agent'' ''Sent successfully. Transaction ID: 42''])\<rparr>"

definition responseNumber :: HttpResponse where
  "responseNumber =
     \<lparr>ok = True, http_status = 200, statusText = ''OK'',
      body = Reply (NotIterable ''apiResponse is not iterable'')\<rparr>"

definition server1 :: Server where
  "server1 = \<lparr>store = store1, broadcasts = []\<rparr>"

text \<open>Two request bodies: one with the empty string as prompt, one with no prompt.\<close>

definition emptyPromptBody :: JsonValue where
  "emptyPromptBody = JObject (\<lambda>k. if k = ''prompt'' then JString [] else JUndefined)"

definition missingPromptBody :: JsonValue where
  "missingPromptBody = JObject (\<lambda>k. JUndefined)"

section \<open>Bodies that pass the schema\<close>

text \<open>The body is an object whose \<open>prompt\<close> is the string \<open>p\<close>.\<close>

definition hasStringPrompt :: "JsonValue \<Rightarrow> string \<Rightarrow> bool" where
  "hasStringPrompt v p = (case v of JObject obj \<Rightarrow> obj ''prompt'' = JString p | _ \<Rightarrow> False)"

section \<open>The order of the task states\<close>

text \<open>
  A status advances along \<open>pending\<close>, \<open>processing\<close>, \<open>completed\<close>: from a state
  that is not terminal to the same or a later one.
\<close>

definition statusAdvances :: "string \<Rightarrow> string \<Rightarrow> bool" where
  "statusAdvances a b =
     ((a = ''pending'' \<and> (b = ''pending'' \<or> b = ''processing'' \<or> b = ''completed''))
      \<or> (a = ''processing'' \<and> (b = ''processing'' \<or> b = ''completed'')))"

section \<open>Properties of the task store\<close>

lemma store1_eval:
  "store1 = \<lparr>tasks = [1 \<mapsto> \<lparr>task_id = 1, prompt = ''Send Alex $32.50'', status = ''pending'',
                                createdAt = 1000, completedAt = None\<rparr>],
             messages = [], currentTaskId = 2, currentMessageId = 1\<rparr>"
  by (simp add: store1_def createTask_def MemStorage_new_def Let_def)

lemma store1_processing_eval:
  "store1_processing =
     \<lparr>tasks = [1 \<mapsto> \<lparr>task_id = 1, prompt = ''Send Alex $32.50'', status = ''processing'',
                        createdAt = 1000, completedAt = None\<rparr>],
      messages =
        [\<lparr>taskId = 1, agent = ''supervisor'', message = ''Analyzing'', messageType = ''analysis'',
          metadata = None, msg_id = 1, timestamp = 2000\<rparr>,
         \<lparr>taskId = 1, agent = ''venmo'', message = ''Paying'', messageType = ''action'',
          metadata = None, msg_id = 2, timestamp = 2001\<rparr>,
         \<lparr>taskId = 1, agent = ''phone'', message = ''Calling'', messageType = ''action'',
          metadata = None, msg_id = 3, timestamp = 2002\<rparr>],
      currentTaskId = 2, currentMessageId = 4\<rparr>"
  by (simp add: store1_processing_def store1_eval updateTaskStatus_def writeStep_def
      createMessage_def mkStep_def Let_def)

lemma store1_failed_eval:
  "store1_failed = store1_processing\<lparr>tasks := [1 \<mapsto> \<lparr>task_id = 1, prompt = ''Send Alex $32.50'',
       status = ''failed'', createdAt = 1000, completedAt = None\<rparr>]\<rparr>"
  by (simp add: store1_failed_def store1_processing_eval updateTaskStatus_def Let_def)

lemma getTask_store1:
  "getTask store1 1 = Some \<lparr>task_id = 1, prompt = ''Send Alex $32.50'',
       status = ''pending'', createdAt = 1000, completedAt = None\<rparr>"
  by (simp add: store1_eval getTask_def)

lemma getTask_store1_processing:
  "getTask store1_processing 1 = Some \<lparr>task_id = 1, prompt = ''Send Alex $32.50'',
       status = ''processing'', createdAt = 1000, completedAt = None\<rparr>"
  by (simp add: store1_processing_eval getTask_def)

lemma getTask_store1_failed:
  "getTask store1_failed 1 = Some \<lparr>task_id = 1, prompt = ''Send Alex $32.50'',
       status = ''failed'', createdAt = 1000, completedAt = None\<rparr>"
  by (simp add: store1_failed_eval getTask_def)

lemma getTaskMessages_store1:
  "getTaskMessages store1 1 = []"
  by (simp add: getTaskMessages_def store1_eval)

lemma getTaskMessages_store1_processing:
  "getTaskMessages store1_processing 1 = messages store1_processing"
  by (simp add: getTaskMessages_def store1_processing_eval)

lemma getTaskMessages_store1_failed:
  "getTaskMessages store1_failed 1 = messages store1_processing"
  by (simp add: getTaskMessages_def store1_failed_eval store1_processing_eval)

lemma updateTaskStatus_messages:
  "messages (snd (updateTaskStatus i st cAt s)) = messages s"
  by (simp add: updateTaskStatus_def Let_def split: option.splits)

lemma updateTaskStatus_known:
  "tasks s i = Some t \<Longrightarrow>
     updateTaskStatus i st cAt s =
       (Some (t\<lparr>status := st, completedAt := cAt\<rparr>),
        s\<lparr>tasks := (tasks s)(i \<mapsto> t\<lparr>status := st, completedAt := cAt\<rparr>)\<rparr>)"
  by (simp add: updateTaskStatus_def Let_def)

subsection \<open>C6: what updateTaskStatus writes and what it leaves alone\<close>

text \<open>
  C6, as stated, fails: \<open>updateTaskStatus\<close> writes \<open>completedAt\<close> on every call, with
  the argument or with null when there is none. A stored completion time is lost when a
  completed task is marked \<open>processing\<close>; a completion time given with a status that is
  not terminal is stored; and \<open>failed\<close>, set without the argument, has none.
\<close>

theorem updateTaskStatus_clears_completedAt:
  "getTask (snd (updateTaskStatus 1 ''completed'' (Some 5000) store1)) 1 =
     Some \<lparr>task_id = 1, prompt = ''Send Alex $32.50'', status = ''completed'',
           createdAt = 1000, completedAt = Some 5000\<rparr> \<and>
   getTask (snd (updateTaskStatus 1 ''processing'' None
                   (snd (updateTaskStatus 1 ''completed'' (Some 5000) store1)))) 1 =
     Some \<lparr>task_id = 1, prompt = ''Send Alex $32.50'', status = ''processing'',
           createdAt = 1000, completedAt = None\<rparr> \<and>
   getTask (snd (updateTaskStatus 1 ''processing'' (Some 7000) store1)) 1 =
     Some \<lparr>task_id = 1, prompt = ''Send Alex $32.50'', status = ''processing'',
           createdAt = 1000, completedAt = Some 7000\<rparr> \<and>
   getTask (snd (updateTaskStatus 1 ''failed'' None store1)) 1 =
     Some \<lparr>task_id = 1, prompt = ''Send Alex $32.50'', status = ''failed'',
           createdAt = 1000, completedAt = None\<rparr>"
  by (simp add: store1_eval getTask_def updateTaskStatus_def Let_def)

text \<open>
  C6, amended: for an unknown id \<open>updateTaskStatus\<close> returns not-found and changes
  nothing. For a known id it returns the stored task with the status replaced by the new
  one and \<open>completedAt\<close> replaced by the argument (null when omitted), whatever the
  status; id, prompt and creation time of the task, every other task, the messages and
  both counters are unchanged.
\<close>

theorem updateTaskStatus_frame:
  "(getTask s i = None \<longrightarrow> updateTaskStatus i st cAt s = (None, s)) \<and>
   (\<forall>t. getTask s i = Some t \<longrightarrow>
      (\<exists>t' s'. updateTaskStatus i st cAt s = (Some t', s') \<and>
         getTask s' i = Some t' \<and>
         status t' = st \<and> completedAt t' = cAt \<and>
         task_id t' = task_id t \<and> prompt t' = prompt t \<and> createdAt t' = createdAt t \<and>
         tasks s' = (tasks s)(i \<mapsto> t') \<and>
         messages s' = messages s \<and>
         currentTaskId s' = currentTaskId s \<and> currentMessageId s' = currentMessageId s))"
  by (simp add: getTask_def updateTaskStatus_def Let_def)

theorem updateTaskStatus_frame_witness:
  "getTask store1 2 = None \<and>
   updateTaskStatus 2 ''processing'' None store1 = (None, store1) \<and>
   getTask store1 1 \<noteq> None \<and>
   map_option status (getTask (snd (updateTaskStatus 1 ''completed'' (Some 5000) store1)) 1)
     = Some ''completed'' \<and>
   map_option completedAt (getTask (snd (updateTaskStatus 1 ''completed'' (Some 5000) store1)) 1)
     = Some (Some 5000) \<and>
   map_option prompt (getTask (snd (updateTaskStatus 1 ''completed'' (Some 5000) store1)) 1)
     = Some ''Send Alex $32.50''"
  using updateTaskStatus_frame [of store1 2 "''processing''" None]
        updateTaskStatus_frame [of store1 1 "''completed''" "Some 5000"]
  by (auto simp add: store1_eval getTask_def)

section \<open>Properties of the progress snapshot\<close>

subsection \<open>C2: the progress of a failed task\<close>

text \<open>
  C2, as stated, fails: \<open>progress\<close> starts at 0 and is set only for \<open>completed\<close> and
  \<open>processing\<close>. A task with three messages reports 300/17 (8 expected steps: 75/2)
  while it is \<open>processing\<close>; the same task, marked \<open>failed\<close>, reports 0.
\<close>

theorem failed_progress_counterexample:
  "map_option status (getTask store1_processing 1) = Some ''processing'' \<and>
   map_option progress (AgentService_getTaskProgress store1_processing 1) = Some (300 / 17) \<and>
   map_option progress (ExternalAgentService_getTaskProgress store1_processing 1) = Some (75 / 2) \<and>
   store1_failed = snd (updateTaskStatus 1 ''failed'' None store1_processing) \<and>
   map_option status (getTask store1_failed 1) = Some ''failed'' \<and>
   map_option progress (AgentService_getTaskProgress store1_failed 1) = Some 0 \<and>
   map_option progress (ExternalAgentService_getTaskProgress store1_failed 1) = Some 0"
  unfolding AgentService_getTaskProgress_def ExternalAgentService_getTaskProgress_def
    getTaskMessages_store1_processing getTaskMessages_store1_failed
    getTask_store1_processing getTask_store1_failed store1_failed_def [symmetric]
  by (simp add: snapshotOf_def Let_def store1_processing_eval)

text \<open>
  C2, amended: for every task whose status is \<open>failed\<close>, the snapshot of either service
  reports progress 0, however many messages the task has; a \<open>pending\<close> task reports 0
  as well.
\<close>

theorem failed_progress_zero:
  assumes "getTask s tid = Some t" and "status t = ''failed'' \<or> status t = ''pending''"
  shows "\<exists>p q. AgentService_getTaskProgress s tid = Some p \<and> progress p = 0 \<and>
                ExternalAgentService_getTaskProgress s tid = Some q \<and> progress q = 0"
  using assms
  by (auto simp add: AgentService_getTaskProgress_def ExternalAgentService_getTaskProgress_def
      snapshotOf_def Let_def)

theorem failed_progress_zero_witness:
  "getTask store1_failed 1 \<noteq> None \<and>
   map_option status (getTask store1_failed 1) = Some ''failed'' \<and>
   (\<exists>p q. AgentService_getTaskProgress store1_failed 1 = Some p \<and> progress p = 0 \<and>
      ExternalAgentService_getTaskProgress store1_failed 1 = Some q \<and> progress q = 0) \<and>
   length (getTaskMessages store1_failed 1) = 3"
proof -
  note t = getTask_store1_failed
  have m: "length (getTaskMessages store1_failed 1) = 3"
    unfolding getTaskMessages_store1_failed by (simp add: store1_processing_eval)
  from failed_progress_zero [OF t] t m show ?thesis
    by simp
qed

subsection \<open>C10: unknown tasks and tasks without messages\<close>

text \<open>
  C10: \<open>getTaskProgress\<close> of either service returns none exactly when \<open>getTask\<close>
  finds no task; and for an existing task that has no stored message and is not
  \<open>completed\<close>, the snapshot has all three agents idle and no current message.
\<close>

theorem getTaskProgress_none_and_idle:
  "(AgentService_getTaskProgress s tid = None \<longleftrightarrow> getTask s tid = None) \<and>
   (ExternalAgentService_getTaskProgress s tid = None \<longleftrightarrow> getTask s tid = None) \<and>
   (\<forall>t. getTask s tid = Some t \<and> getTaskMessages s tid = [] \<and> status t \<noteq> ''completed'' \<longrightarrow>
      (\<exists>p q. AgentService_getTaskProgress s tid = Some p \<and>
         agentStatus p = \<lparr>supervisor = Idle, phone = Idle, venmo = Idle\<rparr> \<and>
         currentMessage p = None \<and>
         ExternalAgentService_getTaskProgress s tid = Some q \<and>
         agentStatus q = \<lparr>supervisor = Idle, phone = Idle, venmo = Idle\<rparr> \<and>
         currentMessage q = None))"
  by (auto simp add: AgentService_getTaskProgress_def ExternalAgentService_getTaskProgress_def
      snapshotOf_def Let_def lastElement_def allIdle_def split: option.splits)

theorem getTaskProgress_none_and_idle_witness:
  "getTask store1 2 = None \<and> AgentService_getTaskProgress store1 2 = None \<and>
   ExternalAgentService_getTaskProgress store1 2 = None \<and>
   getTask store1 1 \<noteq> None \<and> getTaskMessages store1 1 = [] \<and>
   map_option status (getTask store1 1) = Some ''pending'' \<and>
   map_option agentStatus (AgentService_getTaskProgress store1 1)
     = Some \<lparr>supervisor = Idle, phone = Idle, venmo = Idle\<rparr> \<and>
   map_option currentMessage (AgentService_getTaskProgress store1 1) = Some None \<and>
   map_option agentStatus (ExternalAgentService_getTaskProgress store1 1)
     = Some \<lparr>supervisor = Idle, phone = Idle, venmo = Idle\<rparr> \<and>
   map_option currentMessage (ExternalAgentService_getTaskProgress store1 1) = Some None"
proof -
  note t = getTask_store1 and m = getTaskMessages_store1
  have n: "getTask store1 2 = None"
    by (simp add: store1_eval getTask_def)
  from getTaskProgress_none_and_idle [of store1 2] getTaskProgress_none_and_idle [of store1 1]
    t m n show ?thesis
    by auto
qed

subsection \<open>C8: progress along a run\<close>

lemma progress_mono_in_count:
  fixes e :: nat
  assumes "n \<le> n'"
  shows "min (of_nat n / of_nat e * 100) (95::rat) \<le> min (of_nat n' / of_nat e * 100) 95"
proof -
  have "(of_nat n :: rat) / of_nat e \<le> of_nat n' / of_nat e"
    using assms by (simp add: divide_right_mono)
  then have "(of_nat n :: rat) / of_nat e * 100 \<le> of_nat n' / of_nat e * 100"
    by (rule mult_right_mono) simp
  then show ?thesis
    by (simp add: min_le_iff_disj)
qed

lemma snapshot_progress_mono:
  assumes "statusAdvances (status t) (status t')" and "length ms \<le> length ms'"
  shows "progress (snapshotOf e tid t ms) \<le> progress (snapshotOf e tid t' ms')"
proof -
  have nonneg: "0 \<le> min (of_nat (length ms') / of_nat e * 100) (95::rat)"
    by simp
  have le100: "min (of_nat (length ms) / of_nat e * 100) (95::rat) \<le> 100"
    by (simp add: min_le_iff_disj)
  from assms nonneg le100 progress_mono_in_count [OF assms(2), of e] show ?thesis
    by (auto simp add: statusAdvances_def snapshotOf_def Let_def)
qed

lemma snapshot_progress_bounds:
  "0 \<le> progress (snapshotOf e tid t ms) \<and> progress (snapshotOf e tid t ms) \<le> 100 \<and>
   (status t = ''processing'' \<longrightarrow> progress (snapshotOf e tid t ms) \<le> 95) \<and>
   (status t = ''completed'' \<longrightarrow> progress (snapshotOf e tid t ms) = 100)"
  by (simp add: snapshotOf_def Let_def min_le_iff_disj)

text \<open>
  C8: take two snapshots of a task, the second with at least as many messages as the first
  and with a status that the first one's advances to. Then, for either service, the
  progress of the second is at least the progress of the first; a \<open>processing\<close>
  snapshot reports at most 95 and a \<open>completed\<close> one exactly 100.
\<close>

theorem progress_monotone:
  assumes "getTask s tid = Some t" and "getTask s' tid = Some t'"
    and "statusAdvances (status t) (status t')"
    and "length (getTaskMessages s tid) \<le> length (getTaskMessages s' tid)"
  shows "\<exists>p p' q q'.
           AgentService_getTaskProgress s tid = Some p \<and>
           AgentService_getTaskProgress s' tid = Some p' \<and>
           ExternalAgentService_getTaskProgress s tid = Some q \<and>
           ExternalAgentService_getTaskProgress s' tid = Some q' \<and>
           progress p \<le> progress p' \<and> progress q \<le> progress q' \<and>
           (status t = ''processing'' \<longrightarrow> progress p \<le> 95 \<and> progress q \<le> 95) \<and>
           (status t' = ''processing'' \<longrightarrow> progress p' \<le> 95 \<and> progress q' \<le> 95) \<and>
           (status t' = ''completed'' \<longrightarrow> progress p' = 100 \<and> progress q' = 100)"
  using assms snapshot_progress_mono [OF assms(3,4)] snapshot_progress_bounds
  by (simp add: AgentService_getTaskProgress_def ExternalAgentService_getTaskProgress_def)

lemma getTask_store1_completed:
  "getTask store1_completed 1 = Some \<lparr>task_id = 1, prompt = ''Send Alex $32.50'',
       status = ''completed'', createdAt = 1000, completedAt = Some 9000\<rparr>"
  by (simp add: store1_completed_def store1_processing_eval getTask_def updateTaskStatus_def Let_def)

lemma getTaskMessages_store1_completed:
  "getTaskMessages store1_completed 1 = messages store1_processing"
  by (simp add: getTaskMessages_def store1_completed_def updateTaskStatus_messages
      store1_processing_eval)

theorem progress_monotone_witness:
  "statusAdvances ''pending'' ''processing'' \<and> statusAdvances ''processing'' ''completed'' \<and>
   length (getTaskMessages store1 1) \<le> length (getTaskMessages store1_processing 1) \<and>
   length (getTaskMessages store1_processing 1) \<le> length (getTaskMessages store1_completed 1) \<and>
   map_option progress (AgentService_getTaskProgress store1 1) = Some 0 \<and>
   map_option progress (AgentService_getTaskProgress store1_processing 1) = Some (300 / 17) \<and>
   map_option progress (AgentService_getTaskProgress store1_completed 1) = Some 100 \<and>
   (\<exists>p p'. AgentService_getTaskProgress store1 1 = Some p \<and>
      AgentService_getTaskProgress store1_processing 1 = Some p' \<and> progress p \<le> progress p') \<and>
   (\<exists>p p'. AgentService_getTaskProgress store1_processing 1 = Some p \<and>
      AgentService_getTaskProgress store1_completed 1 = Some p' \<and> progress p \<le> progress p')"
proof -
  have a: "statusAdvances ''pending'' ''processing''" and b: "statusAdvances ''processing'' ''completed''"
    by (simp_all add: statusAdvances_def)
  have l1: "length (getTaskMessages store1 1) \<le> length (getTaskMessages store1_processing 1)"
    unfolding getTaskMessages_store1 by simp
  have l2: "length (getTaskMessages store1_processing 1) \<le> length (getTaskMessages store1_completed 1)"
    unfolding getTaskMessages_store1_processing getTaskMessages_store1_completed by simp
  have v0: "map_option progress (AgentService_getTaskProgress store1 1) = Some 0"
    unfolding AgentService_getTaskProgress_def getTask_store1 getTaskMessages_store1
    by (simp add: snapshotOf_def Let_def)
  have v1: "map_option progress (AgentService_getTaskProgress store1_processing 1) = Some (300 / 17)"
    unfolding AgentService_getTaskProgress_def getTask_store1_processing
      getTaskMessages_store1_processing
    by (simp add: snapshotOf_def Let_def store1_processing_eval)
  have v2: "map_option progress (AgentService_getTaskProgress store1_completed 1) = Some 100"
    unfolding AgentService_getTaskProgress_def getTask_store1_completed
    by (simp add: snapshotOf_def Let_def)
  have s1: "statusAdvances (status \<lparr>task_id = 1, prompt = ''Send Alex $32.50'',
       status = ''pending'', createdAt = 1000, completedAt = None\<rparr>)
      (status \<lparr>task_id = 1, prompt = ''Send Alex $32.50'',
       status = ''processing'', createdAt = 1000, completedAt = None\<rparr>)"
    using a by simp
  have s2: "statusAdvances (status \<lparr>task_id = 1, prompt = ''Send Alex $32.50'',
       status = ''processing'', createdAt = 1000, completedAt = None\<rparr>)
      (status \<lparr>task_id = 1, prompt = ''Send Alex $32.50'',
       status = ''completed'', createdAt = 1000, completedAt = Some 9000\<rparr>)"
    using b by simp
  from progress_monotone [OF getTask_store1 getTask_store1_processing s1 l1]
  have m1: "\<exists>p p'. AgentService_getTaskProgress store1 1 = Some p \<and>
      AgentService_getTaskProgress store1_processing 1 = Some p' \<and> progress p \<le> progress p'"
    by blast
  from progress_monotone [OF getTask_store1_processing getTask_store1_completed s2 l2]
  have m2: "\<exists>p p'. AgentService_getTaskProgress store1_processing 1 = Some p \<and>
      AgentService_getTaskProgress store1_completed 1 = Some p' \<and> progress p \<le> progress p'"
    by blast
  from a b l1 l2 v0 v1 v2 m1 m2 show ?thesis by blast
qed

section \<open>Properties of the message order\<close>

subsection \<open>C7: the order in which getTaskMessages returns the messages\<close>

lemma createMessage_messages:
  "messages (snd (createMessage im now s)) =
     messages s @ [\<lparr>taskId = taskId im, agent = agent im, message = message im,
                    messageType = messageType im, metadata = metadata im,
                    msg_id = currentMessageId s, timestamp = now\<rparr>]"
  by (simp add: createMessage_def Let_def)

lemma createMessage_counter:
  "currentMessageId (snd (createMessage im now s)) = currentMessageId s + 1"
  by (simp add: createMessage_def Let_def)

text \<open>
  The stored list is the list of the messages in the order of their creation: each
  \<open>createMessage\<close> appends, and the ids count up along it.
\<close>

lemma reachable_ids:
  assumes "reachable s"
  shows "sorted_wrt (<) (map msg_id (messages s)) \<and>
         (\<forall>m \<in> set (messages s). msg_id m < currentMessageId s)"
  using assms
proof (induction rule: reachable.induct)
  case reachable_new
  show ?case by (simp add: MemStorage_new_def)
next
  case (reachable_createTask s p now)
  then show ?case by (simp add: createTask_def Let_def)
next
  case (reachable_updateTaskStatus s i st cAt)
  then show ?case by (simp add: updateTaskStatus_def Let_def split: option.splits)
next
  case (reachable_createMessage s im now)
  then show ?case
    by (auto simp add: createMessage_messages createMessage_counter sorted_wrt_append)
qed

text \<open>
  Inserting an element that is older (by id) than all elements of a list ordered by
  timestamp and then id keeps that order: the stable sort at work.
\<close>

lemma insort_key_by_stamp_then_id:
  assumes "sorted_wrt (\<lambda>a b. timestamp a < timestamp b \<or>
                        (timestamp a = timestamp b \<and> msg_id a < msg_id b)) ys"
    and "\<forall>y \<in> set ys. msg_id x < msg_id y"
  shows "sorted_wrt (\<lambda>a b. timestamp a < timestamp b \<or>
                       (timestamp a = timestamp b \<and> msg_id a < msg_id b))
           (insort_key timestamp (x :: Message) ys)"
  using assms
proof (induction ys)
  case Nil
  then show ?case by simp
next
  case (Cons y ys)
  show ?case
  proof (cases "timestamp x \<le> timestamp y")
    case True
    have "\<forall>z \<in> set (y # ys). timestamp x < timestamp z \<or>
            (timestamp x = timestamp z \<and> msg_id x < msg_id z)"
    proof
      fix z assume z: "z \<in> set (y # ys)"
      from Cons.prems(1) z have "timestamp y \<le> timestamp z"
        by auto
      with True have "timestamp x \<le> timestamp z" by simp
      moreover from Cons.prems(2) z have "msg_id x < msg_id z" by auto
      ultimately show "timestamp x < timestamp z \<or>
            (timestamp x = timestamp z \<and> msg_id x < msg_id z)"
        by auto
    qed
    with True Cons.prems(1) show ?thesis by simp
  next
    case False
    from Cons.prems have ih: "sorted_wrt (\<lambda>a b. timestamp a < timestamp b \<or>
                       (timestamp a = timestamp b \<and> msg_id a < msg_id b))
           (insort_key timestamp x ys)"
      by (intro Cons.IH) simp_all
    from False Cons.prems(1) have "\<forall>z \<in> set (insort_key timestamp x ys).
        timestamp y < timestamp z \<or> (timestamp y = timestamp z \<and> msg_id y < msg_id z)"
      by (auto simp add: set_insort_key)
    with False ih show ?thesis by simp
  qed
qed

lemma sort_key_by_stamp_then_id:
  assumes "sorted_wrt (\<lambda>a b. msg_id a < msg_id b) (xs :: Message list)"
  shows "sorted_wrt (\<lambda>a b. timestamp a < timestamp b \<or>
                       (timestamp a = timestamp b \<and> msg_id a < msg_id b))
           (sort_key timestamp xs)"
  using assms
proof (induction xs)
  case Nil
  then show ?case by simp
next
  case (Cons x xs)
  then have "\<forall>y \<in> set (sort_key timestamp xs). msg_id x < msg_id y"
    by simp
  with Cons show ?case
    by (simp add: insort_key_by_stamp_then_id)
qed

lemma messages_store1_clock_back:
  "messages store1_clock_back =
     [\<lparr>taskId = 1, agent = ''supervisor'', message = ''Analyzing'', messageType = ''analysis'',
       metadata = None, msg_id = 1, timestamp = 3000\<rparr>,
      \<lparr>taskId = 1, agent = ''venmo'', message = ''Paying'', messageType = ''action'',
       metadata = None, msg_id = 2, timestamp = 2000\<rparr>]"
  by (simp add: store1_clock_back_def createMessage_def updateTaskStatus_def store1_eval Let_def)

lemma getTaskMessages_store1_clock_back:
  "getTaskMessages store1_clock_back 1 =
     [\<lparr>taskId = 1, agent = ''venmo'', message = ''Paying'', messageType = ''action'',
       metadata = None, msg_id = 2, timestamp = 2000\<rparr>,
      \<lparr>taskId = 1, agent = ''supervisor'', message = ''Analyzing'', messageType = ''analysis'',
       metadata = None, msg_id = 1, timestamp = 3000\<rparr>]"
  unfolding getTaskMessages_def messages_store1_clock_back by simp

text \<open>
  C7, as stated, fails: a message takes the reading of the clock at its creation, and the
  result is ordered by these readings. When the clock steps back between two writes, the
  message created second (id 2, stamped 2000) is returned before the message created
  first (id 1, stamped 3000).
\<close>

theorem getTaskMessages_clock_back:
  "map msg_id (messages store1_clock_back) = [1, 2] \<and>
   map timestamp (messages store1_clock_back) = [3000, 2000] \<and>
   map msg_id (getTaskMessages store1_clock_back 1) = [2, 1] \<and>
   map timestamp (getTaskMessages store1_clock_back 1) = [2000, 3000]"
  unfolding getTaskMessages_store1_clock_back messages_store1_clock_back by simp

text \<open>
  C7, amended: for every task, in every store the operations of the task store produce,
  \<open>getTaskMessages\<close> returns exactly the task's stored messages, non-decreasing by
  timestamp, and messages with the same timestamp in the order of their insertion
  (increasing id). The sequence equals the order in which the messages were created if
  and only if the timestamps of the task's messages are non-decreasing in that order.
\<close>

theorem getTaskMessages_order:
  assumes "reachable s"
  shows "mset (getTaskMessages s tid) = mset (filter (\<lambda>m. taskId m = tid) (messages s)) \<and>
         sorted (map timestamp (getTaskMessages s tid)) \<and>
         sorted_wrt (\<lambda>a b. timestamp a < timestamp b \<or>
                       (timestamp a = timestamp b \<and> msg_id a < msg_id b))
           (getTaskMessages s tid) \<and>
         sorted_wrt (\<lambda>a b. msg_id a < msg_id b) (filter (\<lambda>m. taskId m = tid) (messages s)) \<and>
         (getTaskMessages s tid = filter (\<lambda>m. taskId m = tid) (messages s) \<longleftrightarrow>
            sorted (map timestamp (filter (\<lambda>m. taskId m = tid) (messages s))))"
proof -
  let ?own = "filter (\<lambda>m. taskId m = tid) (messages s)"
  from reachable_ids [OF assms]
  have "sorted_wrt (\<lambda>a b. msg_id a < msg_id b) (messages s)"
    by (simp add: sorted_wrt_map)
  then have ids: "sorted_wrt (\<lambda>a b. msg_id a < msg_id b) ?own"
    by (rule sorted_wrt_filter)
  have same: "mset (getTaskMessages s tid) = mset ?own"
    by (simp add: getTaskMessages_def)
  have stamps: "sorted (map timestamp (getTaskMessages s tid))"
    by (simp add: getTaskMessages_def)
  have ties: "sorted_wrt (\<lambda>a b. timestamp a < timestamp b \<or>
                       (timestamp a = timestamp b \<and> msg_id a < msg_id b))
           (getTaskMessages s tid)"
    unfolding getTaskMessages_def using ids by (rule sort_key_by_stamp_then_id)
  have eq: "getTaskMessages s tid = ?own \<longleftrightarrow> sorted (map timestamp ?own)"
  proof
    assume "getTaskMessages s tid = ?own"
    with stamps show "sorted (map timestamp ?own)" by simp
  next
    assume "sorted (map timestamp ?own)"
    then show "getTaskMessages s tid = ?own"
      unfolding getTaskMessages_def by (rule sort_key_id_if_sorted)
  qed
  from same stamps ties ids eq show ?thesis by blast
qed

lemma reachable_store1_processing: "reachable store1_processing"
proof -
  have "reachable store1"
    unfolding store1_def by (rule reachable_createTask) (rule reachable_new)
  then have "reachable (snd (updateTaskStatus 1 ''processing'' None store1))"
    by (rule reachable_updateTaskStatus)
  then show ?thesis
    unfolding store1_processing_def emitSteps.simps writeStep_def
    by (intro reachable_createMessage)
qed

lemma reachable_store1_clock_back: "reachable store1_clock_back"
proof -
  have "reachable store1"
    unfolding store1_def by (rule reachable_createTask) (rule reachable_new)
  then have "reachable (snd (updateTaskStatus 1 ''processing'' None store1))"
    by (rule reachable_updateTaskStatus)
  then show ?thesis
    unfolding store1_clock_back_def by (intro reachable_createMessage)
qed

theorem getTaskMessages_order_witness:
  "reachable store1_clock_back \<and>
   map msg_id (getTaskMessages store1_clock_back 1) = [2, 1] \<and>
   sorted (map timestamp (getTaskMessages store1_clock_back 1)) \<and>
   \<not> sorted (map timestamp (filter (\<lambda>m. taskId m = 1) (messages store1_clock_back))) \<and>
   getTaskMessages store1_clock_back 1 \<noteq> filter (\<lambda>m. taskId m = 1) (messages store1_clock_back) \<and>
   reachable store1_processing \<and>
   sorted (map timestamp (filter (\<lambda>m. taskId m = 1) (messages store1_processing))) \<and>
   getTaskMessages store1_processing 1 = filter (\<lambda>m. taskId m = 1) (messages store1_processing) \<and>
   map msg_id (getTaskMessages store1_processing 1) = [1, 2, 3]"
proof -
  note stepped = getTaskMessages_order [OF reachable_store1_clock_back, of 1]
  note fwd = getTaskMessages_order [OF reachable_store1_processing, of 1]
  have b1: "map msg_id (getTaskMessages store1_clock_back 1) = [2, 1]"
    unfolding getTaskMessages_store1_clock_back by simp
  have b2: "\<not> sorted (map timestamp (filter (\<lambda>m. taskId m = 1) (messages store1_clock_back)))"
    unfolding messages_store1_clock_back by simp
  have f1: "sorted (map timestamp (filter (\<lambda>m. taskId m = 1) (messages store1_processing)))"
    by (simp add: store1_processing_eval)
  from fwd f1
  have f2: "getTaskMessages store1_processing 1
              = filter (\<lambda>m. taskId m = 1) (messages store1_processing)"
    by blast
  have f3: "map msg_id (getTaskMessages store1_processing 1) = [1, 2, 3]"
    unfolding getTaskMessages_store1_processing by (simp add: store1_processing_eval)
  from stepped b2 have b3: "getTaskMessages store1_clock_back 1
      \<noteq> filter (\<lambda>m. taskId m = 1) (messages store1_clock_back)"
    by blast
  from stepped have b4: "sorted (map timestamp (getTaskMessages store1_clock_back 1))"
    by blast
  from reachable_store1_clock_back reachable_store1_processing b1 b2 b3 b4 f1 f2 f3
  show ?thesis by blast
qed

section \<open>Properties of the task processor\<close>

declare numberToString.simps [simp del]

lemma emitSteps_tasks: "tasks (emitSteps tid clock i steps s) = tasks s"
  by (induction steps arbitrary: i s) (simp_all add: writeStep_def createMessage_def Let_def)

lemma runningAfter_active: "isActive (runningAfter clock tid flow k sv) tid"
  by (simp add: runningAfter_def onStorage_def setActive_def isActive_def)

lemma runningAfter_other_flags:
  "j \<noteq> tid \<Longrightarrow> activeProcessing (runningAfter clock tid flow k sv) j = activeProcessing sv j"
  by (simp add: runningAfter_def onStorage_def setActive_def)

lemma runningAfter_task:
  assumes "getTask (storage sv) tid = Some t"
  shows "getTask (storage (runningAfter clock tid flow k sv)) tid
           = Some (t\<lparr>status := ''processing'', completedAt := None\<rparr>)"
  using assms
  by (simp add: runningAfter_def onStorage_def setActive_def getTask_def emitSteps_tasks
      updateTaskStatus_def Let_def)

lemma AgentService_processTask_result:
  assumes "getTask (storage sv) tid = Some t" and "\<not> isActive sv tid"
  shows "fst (AgentService_processTask rnd clock tid p sv) = Inr ()"
    and "getTask (storage (snd (AgentService_processTask rnd clock tid p sv))) tid
           = Some (t\<lparr>status := ''completed'',
                     completedAt := Some (clock (length (generateConversationFlow rnd p)))\<rparr>)"
    and "\<not> isActive (snd (AgentService_processTask rnd clock tid p sv)) tid"
  using assms runningAfter_task [OF assms(1), of clock "generateConversationFlow rnd p"
      "length (generateConversationFlow rnd p)"]
  by (simp_all add: AgentService_processTask_def Let_def onStorage_def setActive_def
      isActive_def getTask_def updateTaskStatus_def)

lemma emitSteps_appends:
  "\<exists>new. messages (emitSteps tid clock i steps s) = messages s @ new \<and>
          map stepOf new = map (Pair tid) steps"
proof (induction steps arbitrary: i s)
  case Nil
  show ?case by simp
next
  case (Cons step rest)
  let ?s' = "writeStep tid step (clock i) s"
  let ?m = "\<lparr>taskId = tid, agent = step_agent step, message = step_message step,
             messageType = step_messageType step, metadata = step_metadata step,
             msg_id = currentMessageId s, timestamp = clock i\<rparr>"
  have first: "messages ?s' = messages s @ [?m]"
    by (simp add: writeStep_def createMessage_def Let_def)
  from Cons.IH [of "i + 1" ?s'] obtain new
    where rest: "messages (emitSteps tid clock (i + 1) rest ?s') = messages ?s' @ new"
      and same: "map stepOf new = map (Pair tid) rest"
    by blast
  have "messages (emitSteps tid clock i (step # rest) s) = messages s @ (?m # new)"
    using rest first by simp
  moreover have "map stepOf (?m # new) = map (Pair tid) (step # rest)"
    by (simp add: same stepOf_def)
  ultimately show ?case by blast
qed

lemma runningAfter_messages:
  "\<exists>new. messages (storage (runningAfter clock tid flow k sv)) = messages (storage sv) @ new \<and>
          map stepOf new = map (Pair tid) (take k flow)"
proof -
  let ?s = "snd (updateTaskStatus tid ''processing'' None (storage sv))"
  from emitSteps_appends [of tid clock 0 "take k flow" ?s]
  show ?thesis
    by (simp add: runningAfter_def onStorage_def setActive_def updateTaskStatus_messages)
qed

lemma AgentService_processTask_messages:
  assumes "\<not> isActive sv tid"
  shows "\<exists>new. messages (storage (snd (AgentService_processTask rnd clock tid p sv)))
                 = messages (storage sv) @ new \<and>
               map stepOf new = map (Pair tid) (generateConversationFlow rnd p)"
  using assms runningAfter_messages [of clock tid "generateConversationFlow rnd p"
      "length (generateConversationFlow rnd p)" sv]
  by (simp add: AgentService_processTask_def Let_def onStorage_def setActive_def
      updateTaskStatus_messages)

lemma ExternalAgentService_processTask_failure:
  assumes "getTask (storage sv) tid = Some t" and "\<not> isActive sv tid"
    and "fetchConversationFlow fetched = Inl e"
  shows "fst (ExternalAgentService_processTask fetched clock tid p sv) = Inl e"
    and "getTask (storage (snd (ExternalAgentService_processTask fetched clock tid p sv))) tid
           = Some (t\<lparr>status := ''failed'', completedAt := None\<rparr>)"
    and "messages (storage (snd (ExternalAgentService_processTask fetched clock tid p sv)))
           = messages (storage sv)"
    and "\<not> isActive (snd (ExternalAgentService_processTask fetched clock tid p sv)) tid"
  using assms runningAfter_task [OF assms(1), of clock "[]" 0]
  by (simp_all add: ExternalAgentService_processTask_def Let_def onStorage_def setActive_def
      isActive_def getTask_def updateTaskStatus_def runningAfter_def)

lemma ExternalAgentService_processTask_success:
  assumes "getTask (storage sv) tid = Some t" and "\<not> isActive sv tid"
    and "fetchConversationFlow fetched = Inr flow"
  shows "fst (ExternalAgentService_processTask fetched clock tid p sv) = Inr ()"
    and "getTask (storage (snd (ExternalAgentService_processTask fetched clock tid p sv))) tid
           = Some (t\<lparr>status := ''completed'', completedAt := Some (clock (length flow))\<rparr>)"
    and "\<exists>new. messages (storage (snd (ExternalAgentService_processTask fetched clock tid p sv)))
                 = messages (storage sv) @ new \<and>
               map stepOf new = map (Pair tid) flow"
    and "\<not> isActive (snd (ExternalAgentService_processTask fetched clock tid p sv)) tid"
  using assms runningAfter_task [OF assms(1), of clock flow "length flow"]
    runningAfter_messages [of clock tid flow "length flow" sv]
  by (simp_all add: ExternalAgentService_processTask_def Let_def onStorage_def setActive_def
      isActive_def getTask_def updateTaskStatus_def updateTaskStatus_messages)

lemma fetchConversationFlow_not_ok:
  "\<not> ok response \<Longrightarrow>
     fetchConversationFlow (Inr response) =
       Inl (Error (''API call failed: '' @ numberToString (http_status response) @ '' ''
                     @ statusText response))"
  by (simp add: fetchConversationFlow_def callExternalAPI_def)

lemma fetchConversationFlow_response500:
  "fetchConversationFlow (Inr response500)
     = Inl (Error ''API call failed: 500 Internal Server Error'')"
  by code_simp

lemma fetchConversationFlow_responseNumber:
  "fetchConversationFlow (Inr responseNumber) = Inl (Error ''apiResponse is not iterable'')"
  by code_simp

lemma fetchConversationFlow_responseEmptyItem:
  "fetchConversationFlow (Inr responseEmptyItem) = Inl (Error ''undefined is not iterable'')"
  by code_simp

lemma fetchConversationFlow_responseReply:
  "fetchConversationFlow (Inr responseReply)
     = Inr [mkStep ''user'' ''Send Alex $32.50'' ''input'',
            mkStep ''supervisor'' ''Let's go to venmo_agent'' ''delegation'',
            mkStep ''venmo'' ''Sent successfully. Transaction ID: 42'' ''success'']"
  by code_simp

lemma getTask_service1: "getTask (storage service1) 1 = Some \<lparr>task_id = 1,
    prompt = ''Send Alex $32.50'', status = ''pending'', createdAt = 1000, completedAt = None\<rparr>"
  by (simp add: service1_def store1_eval getTask_def)

lemma service1_inactive: "\<not> isActive service1 1"
  by (simp add: service1_def isActive_def)

subsection \<open>C4: the re-entry guard\<close>

text \<open>
  C4: a run that has passed the guard and is suspended in its loop has the flag of its
  task set; and whenever the flag of a task is set, \<open>processTask\<close> of either service
  fails with the error "Task is already being processed" and leaves the whole state as it
  was: the store (status, completion time and messages of the task) and the flags.
\<close>

theorem processTask_rejects_reentry:
  "isActive (runningAfter clock0 tid flow k sv0) tid \<and>
   (isActive sv tid \<longrightarrow>
      AgentService_processTask rnd clock tid p sv
        = (Inl (Error ''Task is already being processed''), sv) \<and>
      ExternalAgentService_processTask fetched clock tid p sv
        = (Inl (Error ''Task is already being processed''), sv))"
  by (simp add: runningAfter_active AgentService_processTask_def
      ExternalAgentService_processTask_def alreadyProcessing_def)

lemma storage_service1_running:
  "storage service1_running =
     \<lparr>tasks = [1 \<mapsto> \<lparr>task_id = 1, prompt = ''Send Alex $32.50'', status = ''processing'',
                        createdAt = 1000, completedAt = None\<rparr>],
      messages =
        [\<lparr>taskId = 1, agent = ''supervisor'', message = ''Analyzing'', messageType = ''analysis'',
          metadata = None, msg_id = 1, timestamp = 2000\<rparr>,
         \<lparr>taskId = 1, agent = ''venmo'', message = ''Paying'', messageType = ''action'',
          metadata = None, msg_id = 2, timestamp = 2001\<rparr>],
      currentTaskId = 2, currentMessageId = 3\<rparr>"
  by (simp add: service1_running_def runningAfter_def onStorage_def setActive_def service1_def
      store1_eval updateTaskStatus_def writeStep_def createMessage_def mkStep_def clock1_def Let_def)

theorem processTask_rejects_reentry_witness:
  "isActive service1_running 1 \<and>
   AgentService_processTask random1 clock1 1 ''Send Alex $32.50'' service1_running
     = (Inl (Error ''Task is already being processed''), service1_running) \<and>
   ExternalAgentService_processTask (Inr response500) clock1 1 ''Send Alex $32.50'' service1_running
     = (Inl (Error ''Task is already being processed''), service1_running) \<and>
   map_option status (getTask (storage service1_running) 1) = Some ''processing'' \<and>
   length (messages (storage service1_running)) = 2"
proof -
  have a: "isActive service1_running 1"
    unfolding service1_running_def by (rule runningAfter_active)
  have st: "map_option status (getTask (storage service1_running) 1) = Some ''processing''"
    unfolding storage_service1_running by (simp add: getTask_def)
  have n: "length (messages (storage service1_running)) = 2"
    unfolding storage_service1_running by simp
  from a st n
    processTask_rejects_reentry [where sv = service1_running and tid = 1 and rnd = random1
      and clock = clock1 and p = "''Send Alex $32.50''" and fetched = "Inr response500"]
  show ?thesis by blast
qed

subsection \<open>C3: terminal states\<close>

text \<open>
  C3, as stated, fails: nothing guards a terminal status. After a whole run the task is
  \<open>completed\<close> and the flag is cleared; a second \<open>processTask\<close> for the same id
  is accepted and marks the task \<open>processing\<close> again, and a second run whose call of
  the oracle fails leaves the completed task \<open>failed\<close>.
\<close>

theorem completed_task_reprocessed:
  "map_option status (getTask (storage service1_done) 1) = Some ''completed'' \<and>
   map_option status
     (getTask (storage
        (runningAfter clock1 1 (generateConversationFlow random1 ''Send Alex $32.50'') 0
           service1_done)) 1) = Some ''processing'' \<and>
   fst (AgentService_processTask random1 clock1 1 ''Send Alex $32.50'' service1_done) = Inr () \<and>
   map_option status
     (getTask (storage
        (snd (ExternalAgentService_processTask (Inr response500) clock1 1 ''Send Alex $32.50''
                service1_done))) 1) = Some ''failed''"
proof -
  note r = AgentService_processTask_result [OF getTask_service1 service1_inactive,
      of random1 clock1 "''Send Alex $32.50''", folded service1_done_def]
  note e = fetchConversationFlow_response500
  from r(2) have c: "map_option status (getTask (storage service1_done) 1) = Some ''completed''"
    by simp
  from runningAfter_task [OF r(2)]
  have p: "map_option status
     (getTask (storage
        (runningAfter clock1 1 (generateConversationFlow random1 ''Send Alex $32.50'') 0
           service1_done)) 1) = Some ''processing''"
    by simp
  note a = AgentService_processTask_result(1) [OF r(2) r(3)]
  from ExternalAgentService_processTask_failure(2) [OF r(2) r(3) e]
  have f: "map_option status
     (getTask (storage
        (snd (ExternalAgentService_processTask (Inr response500) clock1 1 ''Send Alex $32.50''
                service1_done))) 1) = Some ''failed''"
    by simp
  from c p a f show ?thesis by blast
qed

text \<open>
  C3, amended: whatever the status of an existing task is, \<open>completed\<close> and \<open>failed\<close>
  included, a \<open>processTask\<close> for its id that finds no run active is accepted. The run
  of the local strategy returns normally, appends the steps of the generated flow to the
  messages and leaves the task \<open>completed\<close> with the completion time of this run. The
  run of the external strategy does the same with the parsed reply, or, when the call or
  the parsing of its reply throws, throws that error, writes no message and leaves the
  task \<open>failed\<close> with no completion time. Either run ends with the flag cleared.
\<close>

theorem processTask_from_any_status:
  assumes "getTask (storage sv) tid = Some t" and "\<not> isActive sv tid"
  shows "fst (AgentService_processTask rnd clock tid p sv) = Inr () \<and>
         getTask (storage (snd (AgentService_processTask rnd clock tid p sv))) tid
           = Some (t\<lparr>status := ''completed'',
                     completedAt := Some (clock (length (generateConversationFlow rnd p)))\<rparr>) \<and>
         (\<exists>new. messages (storage (snd (AgentService_processTask rnd clock tid p sv)))
                  = messages (storage sv) @ new \<and>
                map stepOf new = map (Pair tid) (generateConversationFlow rnd p)) \<and>
         \<not> isActive (snd (AgentService_processTask rnd clock tid p sv)) tid \<and>
         (case fetchConversationFlow fetched of
            Inl e \<Rightarrow>
              fst (ExternalAgentService_processTask fetched clock tid p sv) = Inl e \<and>
              getTask (storage (snd (ExternalAgentService_processTask fetched clock tid p sv))) tid
                = Some (t\<lparr>status := ''failed'', completedAt := None\<rparr>) \<and>
              messages (storage (snd (ExternalAgentService_processTask fetched clock tid p sv)))
                = messages (storage sv)
          | Inr flow \<Rightarrow>
              fst (ExternalAgentService_processTask fetched clock tid p sv) = Inr () \<and>
              getTask (storage (snd (ExternalAgentService_processTask fetched clock tid p sv))) tid
                = Some (t\<lparr>status := ''completed'', completedAt := Some (clock (length flow))\<rparr>) \<and>
              (\<exists>new. messages (storage (snd (ExternalAgentService_processTask fetched clock tid p sv)))
                       = messages (storage sv) @ new \<and>
                     map stepOf new = map (Pair tid) flow)) \<and>
         \<not> isActive (snd (ExternalAgentService_processTask fetched clock tid p sv)) tid"
proof -
  note a = AgentService_processTask_result [OF assms, of rnd clock p]
  note m = AgentService_processTask_messages [OF assms(2), of rnd clock p]
  show ?thesis
  proof (cases "fetchConversationFlow fetched")
    case (Inl e)
    note f = ExternalAgentService_processTask_failure [OF assms Inl, of clock p]
    from a m f Inl show ?thesis by simp
  next
    case (Inr flow)
    note f = ExternalAgentService_processTask_success [OF assms Inr, of clock p]
    from a m f Inr show ?thesis by simp
  qed
qed

lemma getTask_service1_done:
  "getTask (storage service1_done) 1
     = Some \<lparr>task_id = 1, prompt = ''Send Alex $32.50'', status = ''completed'',
             createdAt = 1000, completedAt = Some 2009\<rparr>"
proof -
  have n: "length (generateConversationFlow random1 ''Send Alex $32.50'') = 9"
    by code_simp
  from AgentService_processTask_result(2) [OF getTask_service1 service1_inactive,
      of random1 clock1 "''Send Alex $32.50''", folded service1_done_def]
  show ?thesis by (simp add: n clock1_def)
qed

lemma service1_done_inactive: "\<not> isActive service1_done 1"
  using AgentService_processTask_result(3) [OF getTask_service1 service1_inactive,
      of random1 clock1 "''Send Alex $32.50''", folded service1_done_def] .

theorem processTask_from_any_status_witness:
  "map_option status (getTask (storage service1_done) 1) = Some ''completed'' \<and>
   \<not> isActive service1_done 1 \<and>
   fst (AgentService_processTask random1 (\<lambda>k. 5000 + k) 1 ''Send Alex $32.50'' service1_done)
     = Inr () \<and>
   getTask (storage (snd (AgentService_processTask random1 (\<lambda>k. 5000 + k) 1 ''Send Alex $32.50''
                            service1_done))) 1
     = Some \<lparr>task_id = 1, prompt = ''Send Alex $32.50'', status = ''completed'',
             createdAt = 1000, completedAt = Some 5009\<rparr> \<and>
   fst (ExternalAgentService_processTask (Inr responseNumber) clock1 1 ''Send Alex $32.50''
          service1_done) = Inl (Error ''apiResponse is not iterable'') \<and>
   getTask (storage (snd (ExternalAgentService_processTask (Inr responseNumber) clock1 1
                            ''Send Alex $32.50'' service1_done))) 1
     = Some \<lparr>task_id = 1, prompt = ''Send Alex $32.50'', status = ''failed'',
             createdAt = 1000, completedAt = None\<rparr> \<and>
   fst (ExternalAgentService_processTask (Inr responseEmptyItem) clock1 1 ''Send Alex $32.50''
          service1_done) = Inl (Error ''undefined is not iterable'') \<and>
   getTask (storage (snd (ExternalAgentService_processTask (Inr responseEmptyItem) clock1 1
                            ''Send Alex $32.50'' service1_done))) 1
     = Some \<lparr>task_id = 1, prompt = ''Send Alex $32.50'', status = ''failed'',
             createdAt = 1000, completedAt = None\<rparr> \<and>
   messages (storage (snd (ExternalAgentService_processTask (Inr responseEmptyItem) clock1 1
                             ''Send Alex $32.50'' service1_done)))
     = messages (storage service1_done) \<and>
   fst (ExternalAgentService_processTask (Inr responseReply) (\<lambda>k. 5000 + k) 1 ''Send Alex $32.50''
          service1_done) = Inr () \<and>
   getTask (storage (snd (ExternalAgentService_processTask (Inr responseReply) (\<lambda>k. 5000 + k) 1
                            ''Send Alex $32.50'' service1_done))) 1
     = Some \<lparr>task_id = 1, prompt = ''Send Alex $32.50'', status = ''completed'',
             createdAt = 1000, completedAt = Some 5003\<rparr>"
proof -
  have n: "length (generateConversationFlow random1 ''Send Alex $32.50'') = 9"
    by code_simp
  note t = getTask_service1_done and i = service1_done_inactive
  from processTask_from_any_status [OF t i, of random1 "\<lambda>k. 5000 + k" "''Send Alex $32.50''"
      "Inr responseReply"]
  have loc: "fst (AgentService_processTask random1 (\<lambda>k. 5000 + k) 1 ''Send Alex $32.50''
                service1_done) = Inr () \<and>
      getTask (storage (snd (AgentService_processTask random1 (\<lambda>k. 5000 + k) 1
                               ''Send Alex $32.50'' service1_done))) 1
        = Some \<lparr>task_id = 1, prompt = ''Send Alex $32.50'', status = ''completed'',
                createdAt = 1000, completedAt = Some 5009\<rparr> \<and>
      fst (ExternalAgentService_processTask (Inr responseReply) (\<lambda>k. 5000 + k) 1
             ''Send Alex $32.50'' service1_done) = Inr () \<and>
      getTask (storage (snd (ExternalAgentService_processTask (Inr responseReply)
                               (\<lambda>k. 5000 + k) 1 ''Send Alex $32.50'' service1_done))) 1
        = Some \<lparr>task_id = 1, prompt = ''Send Alex $32.50'', status = ''completed'',
                createdAt = 1000, completedAt = Some 5003\<rparr>"
    by (simp add: n fetchConversationFlow_responseReply)
  from processTask_from_any_status [OF t i, of random1 clock1 "''Send Alex $32.50''"
      "Inr responseNumber"]
  have ext: "fst (ExternalAgentService_processTask (Inr responseNumber) clock1 1
                ''Send Alex $32.50'' service1_done) = Inl (Error ''apiResponse is not iterable'') \<and>
      getTask (storage (snd (ExternalAgentService_processTask (Inr responseNumber) clock1 1
                               ''Send Alex $32.50'' service1_done))) 1
        = Some \<lparr>task_id = 1, prompt = ''Send Alex $32.50'', status = ''failed'',
                createdAt = 1000, completedAt = None\<rparr>"
    by (simp add: fetchConversationFlow_responseNumber)
  from processTask_from_any_status [OF t i, of random1 clock1 "''Send Alex $32.50''"
      "Inr responseEmptyItem"]
  have item: "fst (ExternalAgentService_processTask (Inr responseEmptyItem) clock1 1
                ''Send Alex $32.50'' service1_done) = Inl (Error ''undefined is not iterable'') \<and>
      getTask (storage (snd (ExternalAgentService_processTask (Inr responseEmptyItem) clock1 1
                               ''Send Alex $32.50'' service1_done))) 1
        = Some \<lparr>task_id = 1, prompt = ''Send Alex $32.50'', status = ''failed'',
                createdAt = 1000, completedAt = None\<rparr> \<and>
      messages (storage (snd (ExternalAgentService_processTask (Inr responseEmptyItem) clock1 1
                                ''Send Alex $32.50'' service1_done)))
        = messages (storage service1_done)"
    by (simp add: fetchConversationFlow_responseEmptyItem)
  from t i loc ext item show ?thesis by simp
qed

subsection \<open>C5: a call of the oracle that returns an error status\<close>

lemma routeFetch_not_ok:
  "\<not> ok response \<Longrightarrow>
     routeFetch (Inr response) =
       Inl (Error (''API call failed: '' @ numberToString (http_status response) @ '' ''
                     @ statusText response))"
  by (simp add: routeFetch_def)

text \<open>
  C5: when the response of the oracle is not ok, \<open>processTaskWithUpdates\<close> leaves an
  existing task \<open>failed\<close>, writes no message, and hands to \<open>broadcast\<close> the initial
  progress event and then one \<open>taskError\<close> event, which carries the task id and the
  text "API call failed: <status> <statusText>". \<open>ExternalAgentService.processTask\<close>,
  for the same response, throws that error, leaves the task \<open>failed\<close> and writes no
  message either.
\<close>

theorem failed_call_aborts_run:
  assumes "\<not> ok response"
    and "getTask (store sv) tid = Some t"
    and "getTask (storage svc) tid = Some u" and "\<not> isActive svc tid"
  shows "map_option status (getTask (store (processTaskWithUpdates (Inr response) clock tid p sv)) tid)
           = Some ''failed'' \<and>
         messages (store (processTaskWithUpdates (Inr response) clock tid p sv))
           = messages (store sv) \<and>
         broadcasts (processTaskWithUpdates (Inr response) clock tid p sv)
           = broadcasts sv @
               [initialEvent tid (clock 0),
                TaskErrorEvent tid
                  (''API call failed: '' @ numberToString (http_status response) @ '' ''
                     @ statusText response)] \<and>
         length (filter isTaskError
                   (drop (length (broadcasts sv))
                      (broadcasts (processTaskWithUpdates (Inr response) clock tid p sv)))) = 1 \<and>
         fst (ExternalAgentService_processTask (Inr response) clock tid p svc)
           = Inl (Error (''API call failed: '' @ numberToString (http_status response) @ '' ''
                           @ statusText response)) \<and>
         map_option status
           (getTask (storage (snd (ExternalAgentService_processTask (Inr response) clock tid p svc)))
              tid) = Some ''failed'' \<and>
         messages (storage (snd (ExternalAgentService_processTask (Inr response) clock tid p svc)))
           = messages (storage svc)"
proof -
  let ?msg = "''API call failed: '' @ numberToString (http_status response) @ '' ''
                @ statusText response"
  let ?sv' = "processTaskWithUpdates (Inr response) clock tid p sv"
  have run: "?sv' =
      broadcast (TaskErrorEvent tid ?msg)
        (onStore (\<lambda>s. snd (updateTaskStatus tid ''failed'' None s))
           (broadcast (initialEvent tid (clock 0))
              (onStore (\<lambda>s. snd (updateTaskStatus tid ''processing'' None s)) sv)))"
    by (simp add: processTaskWithUpdates_def Let_def routeFetch_not_ok [OF assms(1)])
  have st: "map_option status (getTask (store ?sv') tid) = Some ''failed''"
    using assms(2)
    by (simp add: run broadcast_def onStore_def getTask_def updateTaskStatus_def Let_def)
  have ms: "messages (store ?sv') = messages (store sv)"
    by (simp add: run broadcast_def onStore_def updateTaskStatus_messages)
  have bs: "broadcasts ?sv' = broadcasts sv @ [initialEvent tid (clock 0), TaskErrorEvent tid ?msg]"
    by (simp add: run broadcast_def onStore_def)
  have one: "length (filter isTaskError (drop (length (broadcasts sv)) (broadcasts ?sv'))) = 1"
    by (simp add: bs isTaskError_def initialEvent_def)
  note f = ExternalAgentService_processTask_failure
             [OF assms(3) assms(4) fetchConversationFlow_not_ok [OF assms(1)], of clock p]
  from st ms bs one f show ?thesis by simp
qed

lemma getTask_server1: "getTask (store server1) 1 = Some \<lparr>task_id = 1,
    prompt = ''Send Alex $32.50'', status = ''pending'', createdAt = 1000, completedAt = None\<rparr>"
  by (simp add: server1_def store1_eval getTask_def)

theorem failed_call_aborts_run_witness:
  "\<not> ok response500 \<and>
   map_option status (getTask (store server1) 1) = Some ''pending'' \<and>
   map_option status
     (getTask (store (processTaskWithUpdates (Inr response500) clock1 1 ''Send Alex $32.50''
                        server1)) 1) = Some ''failed'' \<and>
   messages (store (processTaskWithUpdates (Inr response500) clock1 1 ''Send Alex $32.50'' server1))
     = [] \<and>
   broadcasts (processTaskWithUpdates (Inr response500) clock1 1 ''Send Alex $32.50'' server1)
     = [initialEvent 1 2000, TaskErrorEvent 1 ''API call failed: 500 Internal Server Error''] \<and>
   fst (ExternalAgentService_processTask (Inr response500) clock1 1 ''Send Alex $32.50'' service1)
     = Inl (Error ''API call failed: 500 Internal Server Error'')"
proof -
  have nok: "\<not> ok response500"
    by (simp add: response500_def)
  have msg: "''API call failed: '' @ numberToString (http_status response500) @ '' ''
               @ statusText response500 = ''API call failed: 500 Internal Server Error''"
    by code_simp
  have m0: "messages (store server1) = []" and b0: "broadcasts server1 = []"
    by (simp_all add: server1_def store1_eval)
  have c0: "clock1 0 = 2000"
    by (simp add: clock1_def)
  from failed_call_aborts_run [OF nok getTask_server1 getTask_service1 service1_inactive,
      of clock1 "''Send Alex $32.50''"]
  show ?thesis
    unfolding msg m0 b0 c0 using nok getTask_server1 by simp
qed

section \<open>Properties of the submission endpoint\<close>

subsection \<open>C9: what the endpoint validates\<close>

text \<open>
  C9, as stated, fails: the schema asks for a string and nothing more. A body whose
  prompt is the empty string passes, a task with the empty prompt is created and its
  processing is started.
\<close>

theorem empty_prompt_accepted:
  "postTasks emptyPromptBody 1000 MemStorage_new =
     (Json200 \<lparr>task_id = 1, prompt = [], status = ''pending'', createdAt = 1000,
               completedAt = None\<rparr>,
      \<lparr>tasks = [1 \<mapsto> \<lparr>task_id = 1, prompt = [], status = ''pending'', createdAt = 1000,
                         completedAt = None\<rparr>],
       messages = [], currentTaskId = 2, currentMessageId = 1\<rparr>,
      Some (1, []))"
  by (simp add: postTasks_def insertTaskSchema_parse_def emptyPromptBody_def createTask_def
      MemStorage_new_def Let_def)

lemma parse_string_prompt:
  "hasStringPrompt v p \<Longrightarrow> insertTaskSchema_parse v = Inr p"
  by (auto simp add: hasStringPrompt_def insertTaskSchema_parse_def split: JsonValue.splits)

lemma parse_no_string_prompt:
  "\<forall>p. \<not> hasStringPrompt v p \<Longrightarrow> \<exists>issue. insertTaskSchema_parse v = Inl [issue]"
  by (auto simp add: hasStringPrompt_def insertTaskSchema_parse_def split: JsonValue.splits)

text \<open>
  C9, amended: for every body that is an object with a string as prompt, the empty string
  included, the endpoint creates a task and returns it, with the prompt given, status
  \<open>pending\<close> and no completion time, and starts its processing. For every other body
  (no prompt, a prompt that is not a string, a body that is not an object) it answers 400
  "Validation error" with one field error, creates no task and starts nothing.
\<close>

theorem postTasks_validation:
  "(\<forall>p. hasStringPrompt reqBody p \<longrightarrow>
      (\<exists>task s'. postTasks reqBody now s = (Json200 task, s', Some (task_id task, p)) \<and>
         task = \<lparr>task_id = currentTaskId s, prompt = p, status = ''pending'', createdAt = now,
                 completedAt = None\<rparr> \<and>
         s' = snd (createTask p now s) \<and> getTask s' (task_id task) = Some task)) \<and>
   ((\<forall>p. \<not> hasStringPrompt reqBody p) \<longrightarrow>
      (\<exists>issue. postTasks reqBody now s = (Json400 ''Validation error'' [issue], s, None)))"
proof (intro conjI allI impI)
  fix p assume "hasStringPrompt reqBody p"
  then have "insertTaskSchema_parse reqBody = Inr p" by (rule parse_string_prompt)
  then show "\<exists>task s'. postTasks reqBody now s = (Json200 task, s', Some (task_id task, p)) \<and>
         task = \<lparr>task_id = currentTaskId s, prompt = p, status = ''pending'', createdAt = now,
                 completedAt = None\<rparr> \<and>
         s' = snd (createTask p now s) \<and> getTask s' (task_id task) = Some task"
    by (simp add: postTasks_def createTask_def Let_def getTask_def)
next
  assume "\<forall>p. \<not> hasStringPrompt reqBody p"
  then obtain issue where "insertTaskSchema_parse reqBody = Inl [issue]"
    using parse_no_string_prompt by blast
  then show "\<exists>issue. postTasks reqBody now s = (Json400 ''Validation error'' [issue], s, None)"
    by (simp add: postTasks_def)
qed

theorem postTasks_validation_witness:
  "hasStringPrompt emptyPromptBody [] \<and>
   (\<exists>task s'. postTasks emptyPromptBody 1000 MemStorage_new = (Json200 task, s', Some (1, [])) \<and>
      status task = ''pending'' \<and> completedAt task = None \<and> getTask s' 1 = Some task) \<and>
   \<not> (\<exists>p. hasStringPrompt missingPromptBody p) \<and>
   postTasks missingPromptBody 1000 MemStorage_new
     = (Json400 ''Validation error''
          [\<lparr>expected = ''string'', received = ''undefined'', path = [''prompt'']\<rparr>],
        MemStorage_new, None)"
proof -
  have h: "hasStringPrompt emptyPromptBody []"
    by (simp add: hasStringPrompt_def emptyPromptBody_def)
  have n: "\<forall>p. \<not> hasStringPrompt missingPromptBody p"
    by (simp add: hasStringPrompt_def missingPromptBody_def)
  have c: "currentTaskId MemStorage_new = 1"
    by (simp add: MemStorage_new_def)
  have m: "postTasks missingPromptBody 1000 MemStorage_new
     = (Json400 ''Validation error''
          [\<lparr>expected = ''string'', received = ''undefined'', path = [''prompt'']\<rparr>],
        MemStorage_new, None)"
    by (simp add: postTasks_def insertTaskSchema_parse_def missingPromptBody_def parsedType_def)
  from postTasks_validation [of emptyPromptBody 1000 MemStorage_new] h c
  have "\<exists>task s'. postTasks emptyPromptBody 1000 MemStorage_new = (Json200 task, s', Some (1, [])) \<and>
      status task = ''pending'' \<and> completedAt task = None \<and> getTask s' 1 = Some task"
    by auto
  with h n m show ?thesis by blast
qed

section \<open>Properties of the local generator\<close>

subsection \<open>C1: the flow for "Send Alex $32.50"\<close>

lemma lower_prompt: "toLowerCase ''Send Alex $32.50'' = ''send alex $32.50''"
  by code_simp

lemma lower_John: "toLowerCase ''John'' = ''john''"
  by code_simp

lemma amount_prompt: "extractAmount ''Send Alex $32.50'' = Some ''$32''"
  by code_simp

lemma recipient_prompt: "extractRecipient ''Send Alex $32.50'' = None"
  by code_simp

lemma payment_prompt: "containsPaymentKeywords ''Send Alex $32.50''"
  by code_simp

lemma call_prompt: "\<not> containsCallKeywords ''Send Alex $32.50''"
  by code_simp

lemma one_string: "numberToString (Suc 0) = ''1''"
  by code_simp

text \<open>
  Where the generator misses the prompt of C1. The keyword tests lower-case the prompt and
  find "send" in "Send Alex $32.50". The recipient pattern asks for a lower-case "send"
  before the name: it finds "Alex" after "send Alex" and misses it after "Send Alex", so
  the placeholder "John" stands in. The amount pattern takes the digits after the dollar
  sign and stops at the decimal point. The summary then has "$32 sent to John via Venmo",
  and the text "$32.50 sent to Alex via Venmo" is not in it.
\<close>

lemma send_alex_slips:
  "containsPaymentKeywords ''Send Alex $32.50'' \<and>
   extractRecipient ''send Alex $32.50'' = Some ''Alex'' \<and>
   extractRecipient ''Send Alex $32.50'' = None \<and>
   extractAmount ''Send Alex $32.50'' = Some ''$32'' \<and>
   map step_message (take 2 (drop 3 (generateConversationFlow random1 ''Send Alex $32.50'')))
     = [''Received payment request: $32 to John'',
        ''Searching for contact '' @ dquote @ ''John'' @ dquote @ '' in Venmo contacts...''] \<and>
   \<not> str_includes (step_message (last (generateConversationFlow random1 ''Send Alex $32.50'')))
         (''$32.50 sent to Alex via Venmo '' @ check_mark) \<and>
   str_includes (step_message (last (generateConversationFlow random1 ''Send Alex $32.50'')))
     (''$32 sent to John via Venmo '' @ check_mark)"
  by code_simp

text \<open>
  C1, the code at the prompt "Send Alex $32.50", for which the claim expects the amount
  "$32.50" and the recipient "Alex": the generator detects payment intent only and
  produces nine steps, arranged as the claim says (the supervisor's analysis, planning and
  delegation steps, five venmo steps, the last one carrying the random transaction id,
  and the supervisor's completion summary), but built from the amount "$32" and the
  placeholder recipient "John".
\<close>

theorem send_alex_flow:
  "containsPaymentKeywords ''Send Alex $32.50'' \<and>
   \<not> containsCallKeywords ''Send Alex $32.50'' \<and>
   extractAmount ''Send Alex $32.50'' = Some ''$32'' \<and>
   extractRecipient ''Send Alex $32.50'' = None \<and>
   generateConversationFlow rnd ''Send Alex $32.50'' =
     [mkStep ''supervisor'' (''Analyzing task: '' @ dquote @ ''Send Alex $32.50'' @ dquote)
        ''analysis'',
      mkStep ''supervisor''
        (''Breaking down into subtasks:'' @ [CHR 0x0A] @ ''1. Venmo payment of $32 '') ''planning'',
      mkStep ''supervisor'' ''Delegating payment task to Venmo Agent...'' ''delegation'',
      mkStep ''venmo'' ''Received payment request: $32 to John'' ''acknowledgment'',
      mkStep ''venmo''
        (''Searching for contact '' @ dquote @ ''John'' @ dquote @ '' in Venmo contacts...'')
        ''processing'',
      mkStep ''venmo'' ''Contact found: John Smith (@johnsmith_venmo)'' ''success'',
      mkStep ''venmo''
        (''Initiating payment of $32 with note: '' @ dquote @ ''Payment as requested'' @ dquote)
        ''action'',
      mkStep ''venmo''
        (check_mark @ '' Payment successful! Transaction ID: VM_'' @ take 9 (drop 2 (txn rnd)))
        ''success'',
      mkStep ''supervisor''
        (''All tasks completed successfully!'' @ [CHR 0x0A, CHR 0x0A] @ clipboard @ '' Summary:''
           @ [CHR 0x0A] @ bullet @ '' $32 sent to John via Venmo '' @ check_mark @ [CHR 0x0A])
        ''completion'']"
proof -
  have sub: "extractSubtasks ''Send Alex $32.50'' True False = [''Venmo payment of $32 '']"
    by (simp add: extractSubtasks_def amount_prompt recipient_prompt lower_prompt)
  have venmo: "generateVenmoFlow rnd ''Send Alex $32.50'' =
     [mkStep ''supervisor'' ''Delegating payment task to Venmo Agent...'' ''delegation'',
      mkStep ''venmo'' ''Received payment request: $32 to John'' ''acknowledgment'',
      mkStep ''venmo''
        (''Searching for contact '' @ dquote @ ''John'' @ dquote @ '' in Venmo contacts...'')
        ''processing'',
      mkStep ''venmo'' ''Contact found: John Smith (@johnsmith_venmo)'' ''success'',
      mkStep ''venmo''
        (''Initiating payment of $32 with note: '' @ dquote @ ''Payment as requested'' @ dquote)
        ''action'',
      mkStep ''venmo''
        (check_mark @ '' Payment successful! Transaction ID: VM_'' @ take 9 (drop 2 (txn rnd)))
        ''success'']"
    by (simp add: generateVenmoFlow_def amount_prompt recipient_prompt orElse_def lower_John Let_def)
  have summary: "generateFinalSummary ''Send Alex $32.50'' True False =
      ''All tasks completed successfully!'' @ [CHR 0x0A, CHR 0x0A] @ clipboard @ '' Summary:''
           @ [CHR 0x0A] @ bullet @ '' $32 sent to John via Venmo '' @ check_mark @ [CHR 0x0A]"
    by (simp add: generateFinalSummary_def amount_prompt recipient_prompt orElse_def lower_prompt
        Let_def)
  have flow: "generateConversationFlow rnd ''Send Alex $32.50'' =
      [mkStep ''supervisor'' (''Analyzing task: '' @ dquote @ ''Send Alex $32.50'' @ dquote)
        ''analysis'',
       mkStep ''supervisor''
        (''Breaking down into subtasks:'' @ [CHR 0x0A] @ ''1. Venmo payment of $32 '') ''planning'']
      @ generateVenmoFlow rnd ''Send Alex $32.50''
      @ [mkStep ''supervisor'' (generateFinalSummary ''Send Alex $32.50'' True False) ''completion'']"
    by (simp add: generateConversationFlow_def payment_prompt call_prompt sub one_string Let_def)
  show ?thesis
    unfolding flow venmo summary
    using payment_prompt call_prompt amount_prompt recipient_prompt by simp
qed

theorem send_alex_flow_witness:
  "length (generateConversationFlow random1 ''Send Alex $32.50'') = 9 \<and>
   map step_agent (generateConversationFlow random1 ''Send Alex $32.50'')
     = [''supervisor'', ''supervisor'', ''supervisor'', ''venmo'', ''venmo'', ''venmo'', ''venmo'',
        ''venmo'', ''supervisor''] \<and>
   map step_messageType (generateConversationFlow random1 ''Send Alex $32.50'')
     = [''analysis'', ''planning'', ''delegation'', ''acknowledgment'', ''processing'', ''success'',
        ''action'', ''success'', ''completion''] \<and>
   step_message (generateConversationFlow random1 ''Send Alex $32.50'' ! 7)
     = check_mark @ '' Payment successful! Transaction ID: VM_843172645''"
  using send_alex_flow [of random1]
  by (simp add: mkStep_def random1_def)

end
